theory Spec2Isabelle
  imports Complex_Main "HOL-Library.Word" "HOL-Library.Char_ord" "HOL-Library.List_Lexorder"
begin

unbundle bit_operations_syntax

section \<open>Bytes, slices and the struct module\<close>

type_synonym byte = "8 word"
type_synonym bytes = "byte list"

text \<open>Python's \<open>s[i:j]\<close> for \<open>0 \<le> i \<le> j\<close>: the slice is cut short at the end of \<open>s\<close>.\<close>

definition slice :: "'a list \<Rightarrow> nat \<Rightarrow> nat \<Rightarrow> 'a list" where
  "slice s i j = take (j - i) (drop i s)"

text \<open>An unsigned integer read from bytes, most significant byte first and last.\<close>

definition be_uint :: "bytes \<Rightarrow> nat" where
  "be_uint bs = foldl (\<lambda>acc b. acc * 256 + unat b) 0 bs"

definition le_uint :: "bytes \<Rightarrow> nat" where
  "le_uint bs = be_uint (rev bs)"

text \<open>
  The byte order of a \<open>struct\<close> format: \<open>>\<close> is big-endian, \<open><\<close> little-endian, and a
  format without prefix uses the order and the alignment of the host, which is a
  parameter \<open>big\<close> of the model (\<open>True\<close> on a big-endian host).
\<close>

definition native_uint :: "bool \<Rightarrow> bytes \<Rightarrow> nat" where
  "native_uint big bs = (if big then be_uint bs else le_uint bs)"

section \<open>Media demuxer: \<open>_extract_media_from_1426\<close>\<close>

text \<open>
  What the block under \<open>if remain == 0\<close> leaves behind: \<open>Break\<close> for a \<open>break\<close>,
  \<open>Continue cursor out\<close> for a \<open>continue\<close> (the JPEG signature and the resync), and
  \<open>Proceed cursor remain\<close> when control falls through to the copy below the block.
\<close>

datatype tag_step = Break | Continue nat bytes | Proceed nat nat

definition parse_tag :: "bool \<Rightarrow> bytes \<Rightarrow> nat \<Rightarrow> bytes \<Rightarrow> tag_step" where
  "parse_tag big s cursor out =
    (if cursor + 4 > length s then Break
     else
       let dtype = be_uint (slice s cursor (cursor + 4));
           cursor = cursor + 4
       in
         if dtype = 0x1FC \<or> dtype = 0x1FE then
           (if cursor + 12 > length s then Break
            else Proceed (cursor + 12) (native_uint big (slice s (cursor + 8) (cursor + 12))))
         else if dtype = 0x1FD then
           (if cursor + 4 > length s then Break
            else Proceed (cursor + 4) (native_uint big (slice s cursor (cursor + 4))))
         else if dtype = 0x1FA \<or> dtype = 0x1F9 then
           (if cursor + 4 > length s then Break
            else Proceed (cursor + 4) (native_uint big (slice s (cursor + 2) (cursor + 4))))
         else if dtype = 0xFFD8FFE0 then
           Continue cursor (out @ [0xFF, 0xD8, 0xFF, 0xE0])
         else
           Continue (cursor - 3) out)"

lemma parse_tag_Continue:
  "parse_tag big s cursor out = Continue c out' \<Longrightarrow> cursor < c \<and> c \<le> length s"
  by (auto simp: parse_tag_def Let_def split: if_splits)

lemma parse_tag_Proceed:
  "parse_tag big s cursor out = Proceed c r \<Longrightarrow> cursor < c \<and> c \<le> length s"
  by (auto simp: parse_tag_def Let_def split: if_splits)

text \<open>
  The \<open>while cursor < len(stream_1426)\<close> loop, one call per iteration, on the loop
  variables \<open>cursor\<close>, \<open>remain\<close> and \<open>out\<close>. The cursor never passes the end of the
  stream, so \<open>len(stream_1426) - cursor\<close> is not negative.
\<close>

function extract_loop :: "bool \<Rightarrow> bytes \<Rightarrow> nat \<Rightarrow> nat \<Rightarrow> bytes \<Rightarrow> bytes" where
  "extract_loop big s cursor remain out =
    (if cursor < length s then
       (case (if remain = 0 then parse_tag big s cursor out else Proceed cursor remain) of
          Break \<Rightarrow> out
        | Continue c out' \<Rightarrow> extract_loop big s c 0 out'
        | Proceed c r \<Rightarrow>
            (let take_n = min r (length s - c) in
               if take_n \<le> 0 then out
               else extract_loop big s (c + take_n) (r - take_n) (out @ slice s c (c + take_n))))
     else out)"
  by pat_completeness auto
termination
proof (relation "measure (\<lambda>(big, s, cursor, remain, out). length s - cursor)")
  show "wf (measure (\<lambda>(big, s, cursor, remain, out). length s - cursor))"
    by simp
next
  fix big :: bool and s :: bytes and cursor remain :: nat and out :: bytes and c :: nat and out' :: bytes
  assume "cursor < length s"
    and "(if remain = 0 then parse_tag big s cursor out else Proceed cursor remain) = Continue c out'"
  then have "cursor < c"
    by (auto split: if_splits dest: parse_tag_Continue)
  with \<open>cursor < length s\<close>
  show "((big, s, c, 0, out'), (big, s, cursor, remain, out))
          \<in> measure (\<lambda>(big, s, cursor, remain, out). length s - cursor)"
    by simp
next
  fix big :: bool and s :: bytes and cursor remain :: nat and out :: bytes and c r take_n :: nat
  assume "cursor < length s"
    and step: "(if remain = 0 then parse_tag big s cursor out else Proceed cursor remain) = Proceed c r"
    and "take_n = min r (length s - c)" and "\<not> take_n \<le> 0"
  from step have "cursor \<le> c"
    by (auto split: if_splits dest: parse_tag_Proceed)
  with \<open>cursor < length s\<close> \<open>\<not> take_n \<le> 0\<close>
  show "((big, s, c + take_n, r - take_n, out @ slice s c (c + take_n)), (big, s, cursor, remain, out))
          \<in> measure (\<lambda>(big, s, cursor, remain, out). length s - cursor)"
    by simp
qed

definition extract_media_from_1426 :: "bool \<Rightarrow> bytes \<Rightarrow> bytes" where
  "extract_media_from_1426 big stream_1426 = extract_loop big stream_1426 0 0 []"

declare extract_loop.simps [simp del]

lemma extract_loop_end:
  "\<not> cursor < length s \<Longrightarrow> extract_loop big s cursor remain out = out"
  by (subst extract_loop.simps) simp

lemma extract_loop_unfold:
  "cursor < length s \<Longrightarrow> extract_loop big s cursor remain out =
     (case (if remain = 0 then parse_tag big s cursor out else Proceed cursor remain) of
        Break \<Rightarrow> out
      | Continue c out' \<Rightarrow> extract_loop big s c 0 out'
      | Proceed c r \<Rightarrow>
          (let take_n = min r (length s - c) in
             if take_n \<le> 0 then out
             else extract_loop big s (c + take_n) (r - take_n) (out @ slice s c (c + take_n))))"
  by (subst extract_loop.simps) simp

lemmas demux_eval = extract_media_from_1426_def extract_loop_end extract_loop_unfold
  parse_tag_def slice_def be_uint_def le_uint_def native_uint_def Let_def

subsection \<open>A stream without tags\<close>

lemma extract_loop_no_tag:
  assumes "\<forall>i. i + 4 \<le> length s \<longrightarrow>
     be_uint (slice s i (i + 4)) \<notin> {0x1FC, 0x1FE, 0x1FD, 0x1FA, 0x1F9, 0xFFD8FFE0}"
  shows "extract_loop big s cursor 0 out = out"
  using assms
proof (induction big s cursor "0::nat" out rule: extract_loop.induct)
  case (1 big s cursor out)
  show ?case
  proof (cases "cursor + 4 \<le> length s")
    case True
    with "1.prems"
    have "be_uint (slice s cursor (cursor + 4)) \<notin> {0x1FC, 0x1FE, 0x1FD, 0x1FA, 0x1F9, 0xFFD8FFE0}"
      by blast
    with True have pt: "parse_tag big s cursor out = Continue (cursor + 1) out"
      by (simp add: parse_tag_def Let_def)
    from True have lt: "cursor < length s" by simp
    have "extract_loop big s (cursor + 1) 0 out = out"
      by (rule "1.hyps"(1)[OF lt]) (use "1.prems" pt in simp_all)
    with pt lt show ?thesis by (simp add: extract_loop_unfold)
  next
    case False
    then have "parse_tag big s cursor out = Break"
      by (simp add: parse_tag_def)
    then show ?thesis
      by (cases "cursor < length s") (simp_all add: extract_loop_unfold extract_loop_end)
  qed
qed

text \<open>
  Claim C8, as amended. The demuxer has no test for input that is already elementary and no
  pass-through: on every stream in which no four bytes, at any offset, read as one of the
  tags \<open>0x1FC\<close>, \<open>0x1FE\<close>, \<open>0x1FD\<close>, \<open>0x1FA\<close>, \<open>0x1F9\<close> or as the JPEG signature
  \<open>FFD8FFE0\<close>, it returns the empty stream. Run again on such an output it yields the empty
  stream, which is that output only when the output was empty.
\<close>

theorem demux_without_tag_is_empty:
  assumes "\<forall>i. i + 4 \<le> length s \<longrightarrow>
     be_uint (slice s i (i + 4)) \<notin> {0x1FC, 0x1FE, 0x1FD, 0x1FA, 0x1F9, 0xFFD8FFE0}"
  shows "extract_media_from_1426 big s = []"
  unfolding extract_media_from_1426_def using assms by (rule extract_loop_no_tag)

text \<open>
  The five bytes \<open>00 00 00 01 67\<close> hold two windows of four bytes, neither of them a tag.
\<close>

theorem demux_without_tag_is_empty_witness:
  "be_uint (slice [0, 0, 0, 1, 0x67 :: byte] 0 4) = 1
   \<and> be_uint (slice [0, 0, 0, 1, 0x67 :: byte] 1 5) = 0x167
   \<and> extract_media_from_1426 False [0, 0, 0, 1, 0x67] = []"
proof -
  have h: "\<forall>i. i + 4 \<le> length [0, 0, 0, 1, 0x67 :: byte] \<longrightarrow>
      be_uint (slice [0, 0, 0, 1, 0x67] i (i + 4)) \<notin> {0x1FC, 0x1FE, 0x1FD, 0x1FA, 0x1F9, 0xFFD8FFE0}"
  proof (intro allI impI)
    fix i :: nat
    assume "i + 4 \<le> length [0, 0, 0, 1, 0x67 :: byte]"
    then have "i = 0 \<or> i = 1" by auto
    then show "be_uint (slice [0, 0, 0, 1, 0x67] i (i + 4)) \<notin> {0x1FC, 0x1FE, 0x1FD, 0x1FA, 0x1F9, 0xFFD8FFE0}"
      by (auto simp: slice_def be_uint_def)
  qed
  have "extract_media_from_1426 False [0, 0, 0, 1, 0x67] = []"
    by (rule demux_without_tag_is_empty [OF h])
  then show ?thesis by (simp add: slice_def be_uint_def)
qed

text \<open>
  The claim C8 as stated fails. A video block (tag \<open>0x1FC\<close>) that carries the five bytes
  \<open>00 00 00 01 67\<close>, the start of an H.264 stream, is demuxed to these five bytes on a host
  of either byte order; the demuxer applied to them returns the empty stream, not the five
  bytes.
\<close>

lemma demux_video_block:
  "extract_media_from_1426 big [0,0,1,0xFC, 0,0,0,0, 0,0,0,0, 5,0,0,0, 0,0,0,1,0x67]
     = [0,0,0,1,0x67]"
  by (cases big) (simp_all add: demux_eval)

lemma demux_start_code:
  "extract_media_from_1426 big [0,0,0,1,0x67] = []"
  by (simp add: demux_eval)

theorem demux_not_idempotent:
  "extract_media_from_1426 False [0,0,1,0xFC, 0,0,0,0, 0,0,0,0, 5,0,0,0, 0,0,0,1,0x67]
     = [0,0,0,1,0x67]
   \<and> extract_media_from_1426 False (extract_media_from_1426 False
        [0,0,1,0xFC, 0,0,0,0, 0,0,0,0, 5,0,0,0, 0,0,0,1,0x67])
       \<noteq> extract_media_from_1426 False [0,0,1,0xFC, 0,0,0,0, 0,0,0,0, 5,0,0,0, 0,0,0,1,0x67]
   \<and> extract_media_from_1426 True [0,0,1,0xFC, 0,0,0,0, 0,0,0,0, 5,0,0,0, 0,0,0,1,0x67]
     = [0,0,0,1,0x67]
   \<and> extract_media_from_1426 True (extract_media_from_1426 True
        [0,0,1,0xFC, 0,0,0,0, 0,0,0,0, 5,0,0,0, 0,0,0,1,0x67])
       \<noteq> extract_media_from_1426 True [0,0,1,0xFC, 0,0,0,0, 0,0,0,0, 5,0,0,0, 0,0,0,1,0x67]"
  by (simp add: demux_video_block demux_start_code)

subsection \<open>A block of declared length zero\<close>

text \<open>
  Claim C10. When the loop, with no payload pending, stands at a recognised tag (video
  \<open>0x1FC\<close> or \<open>0x1FE\<close>, audio \<open>0x1FD\<close>, auxiliary \<open>0x1FA\<close> or \<open>0x1F9\<close>) whose complete
  sub-header declares a payload length of 0, the demuxer stops there: the result is the
  output accumulated before that block, whatever bytes follow the sub-header.
\<close>

theorem zero_length_block_stops:
  assumes "cursor < length s"
    and "dtype = be_uint (slice s cursor (cursor + 4))"
    and "(dtype \<in> {0x1FC, 0x1FE} \<and> cursor + 16 \<le> length s
            \<and> native_uint big (slice s (cursor + 12) (cursor + 16)) = 0)
       \<or> (dtype = 0x1FD \<and> cursor + 8 \<le> length s
            \<and> native_uint big (slice s (cursor + 4) (cursor + 8)) = 0)
       \<or> (dtype \<in> {0x1FA, 0x1F9} \<and> cursor + 8 \<le> length s
            \<and> native_uint big (slice s (cursor + 6) (cursor + 8)) = 0)"
  shows "extract_loop big s cursor 0 out = out"
proof -
  from assms have "\<exists>c. parse_tag big s cursor out = Proceed c 0"
    by (auto simp: parse_tag_def Let_def add.commute)
  then obtain c where "parse_tag big s cursor out = Proceed c 0" ..
  with assms(1) show ?thesis by (simp add: extract_loop_unfold)
qed

text \<open>
  An audio block with the payload \<open>AA BB\<close>, then a video block of declared length 0, then
  three more bytes: the loop reaches the video tag at offset 10 with \<open>AA BB\<close> as output,
  and that is the result of the whole run.
\<close>

theorem zero_length_block_stops_witness:
  "extract_loop False
     [0,0,1,0xFD, 2,0,0,0, 0xAA,0xBB, 0,0,1,0xFC, 0,0,0,0, 0,0,0,0, 0,0,0,0, 0x11,0x22,0x33]
     10 0 [0xAA, 0xBB] = [0xAA, 0xBB]
   \<and> extract_media_from_1426 False
     [0,0,1,0xFD, 2,0,0,0, 0xAA,0xBB, 0,0,1,0xFC, 0,0,0,0, 0,0,0,0, 0,0,0,0, 0x11,0x22,0x33]
     = extract_loop False
     [0,0,1,0xFD, 2,0,0,0, 0xAA,0xBB, 0,0,1,0xFC, 0,0,0,0, 0,0,0,0, 0,0,0,0, 0x11,0x22,0x33]
     10 0 [0xAA, 0xBB]"
proof -
  let ?s = "[0,0,1,0xFD, 2,0,0,0, 0xAA,0xBB, 0,0,1,0xFC, 0,0,0,0, 0,0,0,0, 0,0,0,0, 0x11,0x22,0x33] :: bytes"
  have h1: "10 < length ?s" by simp
  have h3: "(be_uint (slice ?s 10 (10 + 4)) \<in> {0x1FC, 0x1FE} \<and> 10 + 16 \<le> length ?s
            \<and> native_uint False (slice ?s (10 + 12) (10 + 16)) = 0)
       \<or> (be_uint (slice ?s 10 (10 + 4)) = 0x1FD \<and> 10 + 8 \<le> length ?s
            \<and> native_uint False (slice ?s (10 + 4) (10 + 8)) = 0)
       \<or> (be_uint (slice ?s 10 (10 + 4)) \<in> {0x1FA, 0x1F9} \<and> 10 + 8 \<le> length ?s
            \<and> native_uint False (slice ?s (10 + 6) (10 + 8)) = 0)"
    by (simp add: slice_def be_uint_def le_uint_def native_uint_def)
  have a: "extract_loop False ?s 10 0 [0xAA, 0xBB] = [0xAA, 0xBB]"
    by (rule zero_length_block_stops [OF h1 refl h3])
  have b: "extract_media_from_1426 False ?s = extract_loop False ?s 10 0 [0xAA, 0xBB]"
    unfolding extract_media_from_1426_def
    by (subst extract_loop_unfold) (simp_all add: parse_tag_def slice_def be_uint_def le_uint_def native_uint_def)
  from a b show ?thesis by simp
qed

section \<open>Index rows and timestamps\<close>

text \<open>
  A \<open>datetime\<close> is a number of seconds and a \<open>timedelta\<close> a difference of two. A row of an
  \<open>OPFileQuery\<close> reply is a dict of which the code reads three keys, each through
  \<open>str(r.get(key, ""))\<close>: the fields hold that string, the empty string for an absent key.
\<close>

type_synonym datetime = int

record row =
  FileName :: string
  BeginTime :: string
  EndTime :: string

text \<open>
  \<open>_parse_dt\<close> is \<open>datetime.strptime(s, "%Y-%m-%d %H:%M:%S")\<close>, with \<open>None\<close> for any
  exception. The functions below take it as the parameter \<open>parse_dt\<close>.
  \<open>strptime_canonical\<close> is that parser on the fixed-width form \<open>YYYY-mm-dd HH:MM:SS\<close>
  that the camera sends and \<open>strftime\<close> writes, counting seconds from the day before
  0001-01-01 as \<open>date.toordinal\<close> counts days; it stands for \<open>parse_dt\<close> on concrete rows.
\<close>

definition digit :: "char \<Rightarrow> nat option" where
  "digit c = (let n = (of_char c :: nat) in if 48 \<le> n \<and> n \<le> 57 then Some (n - 48) else None)"

fun digits_from :: "nat \<Rightarrow> string \<Rightarrow> nat option" where
  "digits_from acc [] = Some acc"
| "digits_from acc (c # cs) =
     (case digit c of None \<Rightarrow> None | Some d \<Rightarrow> digits_from (acc * 10 + d) cs)"

definition is_leap :: "nat \<Rightarrow> bool" where
  "is_leap y = (y mod 4 = 0 \<and> (y mod 100 \<noteq> 0 \<or> y mod 400 = 0))"

definition days_in_month :: "nat \<Rightarrow> nat \<Rightarrow> nat" where
  "days_in_month y m =
     (if m = 2 then (if is_leap y then 29 else 28)
      else if m \<in> {4, 6, 9, 11} then 30 else 31)"

definition days_before_year :: "nat \<Rightarrow> nat" where
  "days_before_year y = (y - 1) * 365 + (y - 1) div 4 - (y - 1) div 100 + (y - 1) div 400"

definition days_before_month :: "nat \<Rightarrow> nat \<Rightarrow> nat" where
  "days_before_month y m =
     [0, 31, 59, 90, 120, 151, 181, 212, 243, 273, 304, 334] ! (m - 1)
       + (if 2 < m \<and> is_leap y then 1 else 0)"

definition make_datetime :: "nat \<Rightarrow> nat \<Rightarrow> nat \<Rightarrow> nat \<Rightarrow> nat \<Rightarrow> nat \<Rightarrow> datetime option" where
  "make_datetime y m d hh mm ss =
     (if 1 \<le> y \<and> 1 \<le> m \<and> m \<le> 12 \<and> 1 \<le> d \<and> d \<le> days_in_month y m
         \<and> hh < 24 \<and> mm < 60 \<and> ss < 60
      then Some (int ((((days_before_year y + days_before_month y m + d) * 24 + hh) * 60 + mm) * 60 + ss))
      else None)"

definition strptime_canonical :: "string \<Rightarrow> datetime option" where
  "strptime_canonical s =
     (if length s = 19 \<and> s ! 4 = CHR ''-'' \<and> s ! 7 = CHR ''-'' \<and> s ! 10 = CHR '' ''
         \<and> s ! 13 = CHR '':'' \<and> s ! 16 = CHR '':'' then
        (case digits_from 0 (slice s 0 4) of None \<Rightarrow> None | Some y \<Rightarrow>
        (case digits_from 0 (slice s 5 7) of None \<Rightarrow> None | Some m \<Rightarrow>
        (case digits_from 0 (slice s 8 10) of None \<Rightarrow> None | Some d \<Rightarrow>
        (case digits_from 0 (slice s 11 13) of None \<Rightarrow> None | Some hh \<Rightarrow>
        (case digits_from 0 (slice s 14 16) of None \<Rightarrow> None | Some mm \<Rightarrow>
        (case digits_from 0 (slice s 17 19) of None \<Rightarrow> None | Some ss \<Rightarrow>
           make_datetime y m d hh mm ss))))))
      else None)"

lemmas strptime_eval = strptime_canonical_def make_datetime_def slice_def digit_def
  days_in_month_def is_leap_def days_before_year_def days_before_month_def

text \<open>
  \<open>strftime_canonical\<close> writes a datetime in the same form, for the years from 1000 on:
  the day number is split into year, month and day as \<open>date.fromordinal\<close> does.
\<close>

definition ord2ymd :: "nat \<Rightarrow> nat \<times> nat \<times> nat" where
  "ord2ymd ordinal =
     (let n = ordinal - 1;
          n400 = n div 146097; n = n mod 146097;
          n100 = n div 36524; n = n mod 36524;
          n4 = n div 1461; n = n mod 1461;
          n1 = n div 365; n = n mod 365;
          year = n400 * 400 + 1 + n100 * 100 + n4 * 4 + n1
      in if n1 = 4 \<or> n100 = 4 then (year - 1, 12, 31)
         else
           let leapyear = (n1 = 3 \<and> (n4 \<noteq> 24 \<or> n100 = 3));
               month = (n + 50) div 32;
               preceding = [0, 31, 59, 90, 120, 151, 181, 212, 243, 273, 304, 334] ! (month - 1)
                             + (if 2 < month \<and> leapyear then 1 else 0)
           in if preceding > n
              then (year, month - 1,
                    n + 1 - (preceding - ((if month - 1 = 2 then 28 else if month - 1 \<in> {4, 6, 9, 11} then 30 else 31)
                                            + (if month - 1 = 2 \<and> leapyear then 1 else 0))))
              else (year, month, n + 1 - preceding))"

definition digit_char :: "nat \<Rightarrow> char" where
  "digit_char d = ''0123456789'' ! d"

definition pad2 :: "nat \<Rightarrow> string" where
  "pad2 n = [digit_char (n div 10 mod 10), digit_char (n mod 10)]"

definition pad4 :: "nat \<Rightarrow> string" where
  "pad4 n = pad2 (n div 100) @ pad2 (n mod 100)"

definition strftime_canonical :: "datetime \<Rightarrow> string" where
  "strftime_canonical t =
     (let secs = nat t;
          (y, m, d) = ord2ymd (secs div 86400)
      in pad4 y @ ''-'' @ pad2 m @ ''-'' @ pad2 d @ '' '' @ pad2 (secs div 3600 mod 24)
           @ '':'' @ pad2 (secs div 60 mod 60) @ '':'' @ pad2 (secs mod 60))"

lemmas strftime_eval = strftime_canonical_def ord2ymd_def pad4_def pad2_def digit_char_def Let_def

section \<open>Hybrid extraction: \<open>_pick_closest_file\<close>\<close>

text \<open>
  The key of a row is the tuple \<open>(0 if in_range else 1, delta)\<close>, and \<open>key_less\<close> is
  Python's \<open><\<close> on such tuples. The loop carries \<open>best\<close> and \<open>best_key\<close>.
\<close>

type_synonym pick_key = "nat \<times> int"

definition key_less :: "pick_key \<Rightarrow> pick_key \<Rightarrow> bool" where
  "key_less k k' = (fst k < fst k' \<or> (fst k = fst k' \<and> snd k < snd k'))"

definition row_key :: "(string \<Rightarrow> datetime option) \<Rightarrow> datetime \<Rightarrow> row \<Rightarrow> pick_key option" where
  "row_key parse_dt target r =
     (case parse_dt (BeginTime r) of
        None \<Rightarrow> None
      | Some bt \<Rightarrow>
          let et = parse_dt (EndTime r);
              in_range = (case et of None \<Rightarrow> False | Some e \<Rightarrow> bt \<le> target \<and> target \<le> e);
              delta = \<bar>bt - target\<bar>
          in Some (if in_range then 0 else 1, delta))"

definition pick_step ::
  "(string \<Rightarrow> datetime option) \<Rightarrow> datetime \<Rightarrow> row option \<times> pick_key option \<Rightarrow> row
     \<Rightarrow> row option \<times> pick_key option" where
  "pick_step parse_dt target st r =
     (case row_key parse_dt target r of
        None \<Rightarrow> st
      | Some key \<Rightarrow>
          (case st of (best, best_key) \<Rightarrow>
             if best = None \<or> (case best_key of None \<Rightarrow> False | Some bk \<Rightarrow> key_less key bk)
             then (Some r, Some key) else st))"

definition pick_closest_file :: "(string \<Rightarrow> datetime option) \<Rightarrow> row list \<Rightarrow> datetime \<Rightarrow> row option" where
  "pick_closest_file parse_dt rows target = fst (foldl (pick_step parse_dt target) (None, None) rows)"

lemma pick_step_skip:
  "row_key parse_dt target r = None \<Longrightarrow> pick_step parse_dt target st r = st"
  by (simp add: pick_step_def)

lemma pick_step_first:
  "row_key parse_dt target r = Some k \<Longrightarrow>
   pick_step parse_dt target (None, bk) r = (Some r, Some k)"
  by (simp add: pick_step_def)

lemma pick_step_better:
  "row_key parse_dt target r = Some k \<Longrightarrow> key_less k bk \<Longrightarrow>
   pick_step parse_dt target (Some b, Some bk) r = (Some r, Some k)"
  by (simp add: pick_step_def)

lemma pick_step_keep:
  "row_key parse_dt target r = Some k \<Longrightarrow> \<not> key_less k bk \<Longrightarrow>
   pick_step parse_dt target (Some b, Some bk) r = (Some b, Some bk)"
  by (simp add: pick_step_def)

lemma key_less_trans: "key_less a b \<Longrightarrow> key_less b c \<Longrightarrow> key_less a c"
  by (auto simp: key_less_def)

lemma key_less_not_trans: "key_less a b \<Longrightarrow> \<not> key_less c b \<Longrightarrow> key_less a c"
  by (auto simp: key_less_def prod_eq_iff)

text \<open>What the loop has found after a prefix of the rows.\<close>

definition picked_in :: "(string \<Rightarrow> datetime option) \<Rightarrow> datetime \<Rightarrow> row list \<Rightarrow> row \<Rightarrow> pick_key \<Rightarrow> bool" where
  "picked_in parse_dt target rows r k =
     (\<exists>pre post. rows = pre @ r # post \<and> row_key parse_dt target r = Some k
        \<and> (\<forall>x \<in> set pre. \<forall>kx. row_key parse_dt target x = Some kx \<longrightarrow> key_less k kx)
        \<and> (\<forall>x \<in> set post. \<forall>kx. row_key parse_dt target x = Some kx \<longrightarrow> \<not> key_less kx k))"

lemma pick_fold_invariant:
  "(foldl (pick_step parse_dt target) (None, None) rows = (None, None)
      \<and> (\<forall>x \<in> set rows. row_key parse_dt target x = None))
   \<or> (\<exists>r k. foldl (pick_step parse_dt target) (None, None) rows = (Some r, Some k)
      \<and> picked_in parse_dt target rows r k)"
proof (induction rows rule: rev_induct)
  case Nil
  show ?case by simp
next
  case (snoc x rows)
  show ?case
  proof (cases "row_key parse_dt target x")
    case None
    from snoc show ?thesis
    proof
      assume "foldl (pick_step parse_dt target) (None, None) rows = (None, None)
               \<and> (\<forall>x \<in> set rows. row_key parse_dt target x = None)"
      with None show ?thesis by (simp add: pick_step_skip)
    next
      assume "\<exists>r k. foldl (pick_step parse_dt target) (None, None) rows = (Some r, Some k)
               \<and> picked_in parse_dt target rows r k"
      then obtain r k pre post where st: "foldl (pick_step parse_dt target) (None, None) rows = (Some r, Some k)"
        and d: "rows = pre @ r # post" "row_key parse_dt target r = Some k"
          "\<forall>x \<in> set pre. \<forall>kx. row_key parse_dt target x = Some kx \<longrightarrow> key_less k kx"
          "\<forall>x \<in> set post. \<forall>kx. row_key parse_dt target x = Some kx \<longrightarrow> \<not> key_less kx k"
        unfolding picked_in_def by blast
      have "picked_in parse_dt target (rows @ [x]) r k"
        unfolding picked_in_def
        by (rule exI[of _ pre], rule exI[of _ "post @ [x]"]) (use d None in auto)
      with st None show ?thesis by (simp add: pick_step_skip)
    qed
  next
    case (Some kx)
    from snoc show ?thesis
    proof
      assume a: "foldl (pick_step parse_dt target) (None, None) rows = (None, None)
               \<and> (\<forall>x \<in> set rows. row_key parse_dt target x = None)"
      have "picked_in parse_dt target (rows @ [x]) x kx"
        unfolding picked_in_def
        by (rule exI[of _ rows], rule exI[of _ "[]"]) (use a Some in auto)
      with a Some show ?thesis by (simp add: pick_step_first)
    next
      assume "\<exists>r k. foldl (pick_step parse_dt target) (None, None) rows = (Some r, Some k)
               \<and> picked_in parse_dt target rows r k"
      then obtain r k pre post where st: "foldl (pick_step parse_dt target) (None, None) rows = (Some r, Some k)"
        and d: "rows = pre @ r # post" "row_key parse_dt target r = Some k"
          "\<forall>x \<in> set pre. \<forall>kx. row_key parse_dt target x = Some kx \<longrightarrow> key_less k kx"
          "\<forall>x \<in> set post. \<forall>kx. row_key parse_dt target x = Some kx \<longrightarrow> \<not> key_less kx k"
        unfolding picked_in_def by blast
      show ?thesis
      proof (cases "key_less kx k")
        case True
        have "picked_in parse_dt target (rows @ [x]) x kx"
          unfolding picked_in_def
        proof (rule exI[of _ rows], rule exI[of _ "[]"], intro conjI)
          show "\<forall>y \<in> set rows. \<forall>ky. row_key parse_dt target y = Some ky \<longrightarrow> key_less kx ky"
          proof (intro ballI allI impI)
            fix y ky assume y: "y \<in> set rows" "row_key parse_dt target y = Some ky"
            from y(1) d(1) consider "y \<in> set pre" | "y = r" | "y \<in> set post" by auto
            then show "key_less kx ky"
            proof cases
              case 1 with d(3) y(2) have "key_less k ky" by blast
              with True show ?thesis by (rule key_less_trans)
            next
              case 2 with d(2) y(2) True show ?thesis by simp
            next
              case 3 with d(4) y(2) have "\<not> key_less ky k" by blast
              with True show ?thesis by (rule key_less_not_trans)
            qed
          qed
        qed (use Some in simp_all)
        with st Some True show ?thesis by (simp add: pick_step_better)
      next
        case False
        have "picked_in parse_dt target (rows @ [x]) r k"
          unfolding picked_in_def
          by (rule exI[of _ pre], rule exI[of _ "post @ [x]"]) (use d Some False in auto)
        with st Some False show ?thesis by (simp add: pick_step_keep)
      qed
    qed
  qed
qed


lemma pick_closest_file_None:
  "pick_closest_file parse_dt rows target = None
     \<longleftrightarrow> (\<forall>x \<in> set rows. parse_dt (BeginTime x) = None)"
proof -
  have rk: "\<And>x. row_key parse_dt target x = None \<longleftrightarrow> parse_dt (BeginTime x) = None"
    by (simp add: row_key_def Let_def split: option.splits)
  from pick_fold_invariant [of parse_dt target rows] show ?thesis
  proof
    assume "foldl (pick_step parse_dt target) (None, None) rows = (None, None)
             \<and> (\<forall>x \<in> set rows. row_key parse_dt target x = None)"
    then show ?thesis by (simp add: pick_closest_file_def rk)
  next
    assume "\<exists>r k. foldl (pick_step parse_dt target) (None, None) rows = (Some r, Some k)
             \<and> picked_in parse_dt target rows r k"
    then obtain r k where st: "foldl (pick_step parse_dt target) (None, None) rows = (Some r, Some k)"
      and p: "picked_in parse_dt target rows r k" by blast
    from p have "r \<in> set rows" "row_key parse_dt target r = Some k"
      by (auto simp: picked_in_def)
    then have "\<exists>x \<in> set rows. parse_dt (BeginTime x) \<noteq> None"
      using rk [of r] by auto
    with st show ?thesis by (auto simp: pick_closest_file_def)
  qed
qed

lemma pick_closest_file_Some:
  assumes "pick_closest_file parse_dt rows target = Some r"
  shows "\<exists>k. picked_in parse_dt target rows r k"
proof -
  from pick_fold_invariant [of parse_dt target rows] show ?thesis
  proof
    assume "foldl (pick_step parse_dt target) (None, None) rows = (None, None)
             \<and> (\<forall>x \<in> set rows. row_key parse_dt target x = None)"
    with assms show ?thesis by (simp add: pick_closest_file_def)
  next
    assume "\<exists>r k. foldl (pick_step parse_dt target) (None, None) rows = (Some r, Some k)
             \<and> picked_in parse_dt target rows r k"
    then obtain r' k where "foldl (pick_step parse_dt target) (None, None) rows = (Some r', Some k)"
      and "picked_in parse_dt target rows r' k" by blast
    with assms have "picked_in parse_dt target rows r k"
      by (simp add: pick_closest_file_def)
    then show ?thesis ..
  qed
qed

lemma pick_closest_file_in_range_first:
  assumes "pick_closest_file parse_dt rows target = Some r"
    and "x \<in> set rows" and "row_key parse_dt target x = Some (0, d)"
  shows "\<exists>d'. row_key parse_dt target r = Some (0, d')"
proof -
  from pick_closest_file_Some [OF assms(1)] obtain k pre post where
    d: "rows = pre @ r # post" "row_key parse_dt target r = Some k"
      "\<forall>x \<in> set pre. \<forall>kx. row_key parse_dt target x = Some kx \<longrightarrow> key_less k kx"
      "\<forall>x \<in> set post. \<forall>kx. row_key parse_dt target x = Some kx \<longrightarrow> \<not> key_less kx k"
    unfolding picked_in_def by blast
  from assms(2) d(1) consider "x \<in> set pre" | "x = r" | "x \<in> set post" by auto
  then have "fst k = 0"
  proof cases
    case 1 with d(3) assms(3) have "key_less k (0, d)" by blast
    then show ?thesis by (simp add: key_less_def)
  next
    case 2 with d(2) assms(3) show ?thesis by simp
  next
    case 3 with d(4) assms(3) have "\<not> key_less (0, d) k" by blast
    then show ?thesis by (auto simp: key_less_def)
  qed
  with d(2) show ?thesis by (cases k) simp
qed

lemma pick_closest_file_scenario:
  assumes "parse_dt (BeginTime r1) = Some (target - 5)"
    and "parse_dt (BeginTime r2) = Some (target - 1)"
    and "parse_dt (EndTime r2) = Some (target + 2)"
    and "parse_dt (BeginTime r3) = Some (target + 290)"
  shows "pick_closest_file parse_dt [r1, r2, r3] target = Some r2"
proof -
  from assms(1) obtain f1 where k1: "row_key parse_dt target r1 = Some (f1, 5)"
    by (simp add: row_key_def Let_def)
  from assms(2,3) have k2: "row_key parse_dt target r2 = Some (0, 1)"
    by (simp add: row_key_def Let_def)
  from assms(4) have k3: "row_key parse_dt target r3 = Some (1, 290)"
    by (simp add: row_key_def Let_def split: option.splits)
  have l21: "key_less (0, 1) (f1, 5)" by (auto simp: key_less_def)
  have l32: "\<not> key_less (1, 290) (0, 1)" by (simp add: key_less_def)
  show ?thesis
    by (simp add: pick_closest_file_def pick_step_first [OF k1] pick_step_better [OF k2 l21]
        pick_step_keep [OF k3 l32])
qed

text \<open>
  The key of a row, read off the source: it exists when \<open>BeginTime\<close> parses, to \<open>bx\<close> say,
  and is then the pair of 0 or 1, 0 when \<open>EndTime\<close> parses too and
  \<open>bx \<le> target \<le> EndTime\<close>, and of \<open>|bx - target|\<close>.
\<close>

lemma row_key_spelled:
  "row_key parse_dt target x = Some k \<longleftrightarrow>
     (\<exists>bx. parse_dt (BeginTime x) = Some bx
        \<and> k = ((if (\<exists>ex. parse_dt (EndTime x) = Some ex \<and> bx \<le> target \<and> target \<le> ex)
                 then 0 else 1), \<bar>bx - target\<bar>))"
  by (auto simp: row_key_def Let_def split: option.splits)

lemma pick_closest_file_spelled:
  assumes "pick_closest_file parse_dt rows target = Some r"
  shows "\<exists>pre post bt. rows = pre @ r # post \<and> parse_dt (BeginTime r) = Some bt
    \<and> (\<forall>x \<in> set pre. \<forall>bx. parse_dt (BeginTime x) = Some bx \<longrightarrow>
          (if (\<exists>e. parse_dt (EndTime r) = Some e \<and> bt \<le> target \<and> target \<le> e) then 0 else 1 :: nat)
            < (if (\<exists>ex. parse_dt (EndTime x) = Some ex \<and> bx \<le> target \<and> target \<le> ex) then 0 else 1)
          \<or> (if (\<exists>e. parse_dt (EndTime r) = Some e \<and> bt \<le> target \<and> target \<le> e) then 0 else 1 :: nat)
               = (if (\<exists>ex. parse_dt (EndTime x) = Some ex \<and> bx \<le> target \<and> target \<le> ex) then 0 else 1)
             \<and> \<bar>bt - target\<bar> < \<bar>bx - target\<bar>)
    \<and> (\<forall>x \<in> set post. \<forall>bx. parse_dt (BeginTime x) = Some bx \<longrightarrow>
          (if (\<exists>e. parse_dt (EndTime r) = Some e \<and> bt \<le> target \<and> target \<le> e) then 0 else 1 :: nat)
            < (if (\<exists>ex. parse_dt (EndTime x) = Some ex \<and> bx \<le> target \<and> target \<le> ex) then 0 else 1)
          \<or> (if (\<exists>e. parse_dt (EndTime r) = Some e \<and> bt \<le> target \<and> target \<le> e) then 0 else 1 :: nat)
               = (if (\<exists>ex. parse_dt (EndTime x) = Some ex \<and> bx \<le> target \<and> target \<le> ex) then 0 else 1)
             \<and> \<bar>bt - target\<bar> \<le> \<bar>bx - target\<bar>)"
proof -
  from pick_closest_file_Some [OF assms] obtain k pre post where
    d: "rows = pre @ r # post" "row_key parse_dt target r = Some k"
      "\<forall>x \<in> set pre. \<forall>kx. row_key parse_dt target x = Some kx \<longrightarrow> key_less k kx"
      "\<forall>x \<in> set post. \<forall>kx. row_key parse_dt target x = Some kx \<longrightarrow> \<not> key_less kx k"
    unfolding picked_in_def by blast
  from d(2) obtain bt where bt: "parse_dt (BeginTime r) = Some bt"
    and k: "k = ((if (\<exists>e. parse_dt (EndTime r) = Some e \<and> bt \<le> target \<and> target \<le> e)
                  then 0 else 1), \<bar>bt - target\<bar>)"
    unfolding row_key_spelled by blast
  have pre: "(if (\<exists>e. parse_dt (EndTime r) = Some e \<and> bt \<le> target \<and> target \<le> e) then 0 else 1 :: nat)
            < (if (\<exists>ex. parse_dt (EndTime x) = Some ex \<and> bx \<le> target \<and> target \<le> ex) then 0 else 1)
          \<or> (if (\<exists>e. parse_dt (EndTime r) = Some e \<and> bt \<le> target \<and> target \<le> e) then 0 else 1 :: nat)
               = (if (\<exists>ex. parse_dt (EndTime x) = Some ex \<and> bx \<le> target \<and> target \<le> ex) then 0 else 1)
             \<and> \<bar>bt - target\<bar> < \<bar>bx - target\<bar>"
    if "x \<in> set pre" "parse_dt (BeginTime x) = Some bx" for x bx
  proof -
    from that(2) have "row_key parse_dt target x
        = Some ((if (\<exists>ex. parse_dt (EndTime x) = Some ex \<and> bx \<le> target \<and> target \<le> ex)
                 then 0 else 1), \<bar>bx - target\<bar>)"
      unfolding row_key_spelled by blast
    with d(3) that(1) have "key_less k
        ((if (\<exists>ex. parse_dt (EndTime x) = Some ex \<and> bx \<le> target \<and> target \<le> ex)
                 then 0 else 1), \<bar>bx - target\<bar>)"
      by blast
    then show ?thesis unfolding k key_less_def fst_conv snd_conv .
  qed
  have post: "(if (\<exists>e. parse_dt (EndTime r) = Some e \<and> bt \<le> target \<and> target \<le> e) then 0 else 1 :: nat)
            < (if (\<exists>ex. parse_dt (EndTime x) = Some ex \<and> bx \<le> target \<and> target \<le> ex) then 0 else 1)
          \<or> (if (\<exists>e. parse_dt (EndTime r) = Some e \<and> bt \<le> target \<and> target \<le> e) then 0 else 1 :: nat)
               = (if (\<exists>ex. parse_dt (EndTime x) = Some ex \<and> bx \<le> target \<and> target \<le> ex) then 0 else 1)
             \<and> \<bar>bt - target\<bar> \<le> \<bar>bx - target\<bar>"
    if "x \<in> set post" "parse_dt (BeginTime x) = Some bx" for x bx
  proof -
    from that(2) have "row_key parse_dt target x
        = Some ((if (\<exists>ex. parse_dt (EndTime x) = Some ex \<and> bx \<le> target \<and> target \<le> ex)
                 then 0 else 1), \<bar>bx - target\<bar>)"
      unfolding row_key_spelled by blast
    with d(4) that(1) have "\<not> key_less
        ((if (\<exists>ex. parse_dt (EndTime x) = Some ex \<and> bx \<le> target \<and> target \<le> ex)
                 then 0 else 1), \<bar>bx - target\<bar>) k"
      by blast
    then have "\<not> ((if (\<exists>ex. parse_dt (EndTime x) = Some ex \<and> bx \<le> target \<and> target \<le> ex) then 0 else 1 :: nat)
            < (if (\<exists>e. parse_dt (EndTime r) = Some e \<and> bt \<le> target \<and> target \<le> e) then 0 else 1)
          \<or> (if (\<exists>ex. parse_dt (EndTime x) = Some ex \<and> bx \<le> target \<and> target \<le> ex) then 0 else 1 :: nat)
               = (if (\<exists>e. parse_dt (EndTime r) = Some e \<and> bt \<le> target \<and> target \<le> e) then 0 else 1)
             \<and> \<bar>bx - target\<bar> < \<bar>bt - target\<bar>)"
      unfolding k key_less_def fst_conv snd_conv .
    then show ?thesis by linarith
  qed
  from d(1) bt pre post show ?thesis by blast
qed

lemma pick_closest_file_prefers_in_range:
  assumes "pick_closest_file parse_dt rows target = Some r"
    and "x \<in> set rows" and "parse_dt (BeginTime x) = Some bx" and "parse_dt (EndTime x) = Some ex"
    and "bx \<le> target" and "target \<le> ex"
  shows "\<exists>bt e. parse_dt (BeginTime r) = Some bt \<and> parse_dt (EndTime r) = Some e
           \<and> bt \<le> target \<and> target \<le> e"
proof -
  from assms(3-6) have "row_key parse_dt target x = Some (0, \<bar>bx - target\<bar>)"
    unfolding row_key_spelled by auto
  from pick_closest_file_in_range_first [OF assms(1,2) this]
  obtain d' where "row_key parse_dt target r = Some (0, d')" ..
  then show ?thesis
    unfolding row_key_spelled by (auto split: if_splits)
qed

lemma pick_closest_file_tie:
  assumes "parse_dt (BeginTime r1) = Some b" and "parse_dt (BeginTime r2) = Some b"
    and "parse_dt (EndTime r1) = None" and "parse_dt (EndTime r2) = None"
  shows "pick_closest_file parse_dt [r1, r2] target = Some r1"
proof -
  from assms have k1: "row_key parse_dt target r1 = Some (1, \<bar>b - target\<bar>)"
    and k2: "row_key parse_dt target r2 = Some (1, \<bar>b - target\<bar>)"
    by (simp_all add: row_key_def Let_def)
  have n: "\<not> key_less (1, \<bar>b - target\<bar>) (1, \<bar>b - target\<bar>)"
    by (simp add: key_less_def)
  show ?thesis
    by (simp only: pick_closest_file_def foldl.simps pick_step_first [OF k1]
        pick_step_keep [OF k2 n] fst_conv)
qed

text \<open>
  Claim C4. The picker returns \<open>None\<close> exactly when no row has a \<open>BeginTime\<close> that
  parses. Otherwise it returns a row \<open>r\<close> of the list, with begin time \<open>bt\<close>, that is minimal
  for the key \<open>(0 if BeginTime \<le> T \<le> EndTime else 1, |BeginTime - T|)\<close> in the
  lexicographic order among the rows whose begin time parses: each such row before \<open>r\<close> in
  the list has a strictly greater key, so the first seen of equal keys wins, and each such
  row after \<open>r\<close> has a key that is greater or equal. In particular, when some row is in
  range, so is the row returned. For rows with begin times \<open>T - 5\<close>, \<open>T - 1\<close> (end time
  \<open>T + 2\<close>) and \<open>T + 290\<close>, as 10:00:05, 10:00:09 (end 10:00:12) and 10:05:00 around the
  target 10:00:10, the second row is picked.
\<close>

theorem pick_closest_file_minimal:
  "(pick_closest_file parse_dt rows target = None
      \<longleftrightarrow> (\<forall>x \<in> set rows. parse_dt (BeginTime x) = None))
   \<and> (pick_closest_file parse_dt rows target = Some r \<longrightarrow>
        (\<exists>pre post bt. rows = pre @ r # post \<and> parse_dt (BeginTime r) = Some bt
          \<and> (\<forall>x \<in> set pre. \<forall>bx. parse_dt (BeginTime x) = Some bx \<longrightarrow>
                (if (\<exists>e. parse_dt (EndTime r) = Some e \<and> bt \<le> target \<and> target \<le> e) then 0 else 1 :: nat)
                  < (if (\<exists>ex. parse_dt (EndTime x) = Some ex \<and> bx \<le> target \<and> target \<le> ex) then 0 else 1)
                \<or> (if (\<exists>e. parse_dt (EndTime r) = Some e \<and> bt \<le> target \<and> target \<le> e) then 0 else 1 :: nat)
                     = (if (\<exists>ex. parse_dt (EndTime x) = Some ex \<and> bx \<le> target \<and> target \<le> ex) then 0 else 1)
                   \<and> \<bar>bt - target\<bar> < \<bar>bx - target\<bar>)
          \<and> (\<forall>x \<in> set post. \<forall>bx. parse_dt (BeginTime x) = Some bx \<longrightarrow>
                (if (\<exists>e. parse_dt (EndTime r) = Some e \<and> bt \<le> target \<and> target \<le> e) then 0 else 1 :: nat)
                  < (if (\<exists>ex. parse_dt (EndTime x) = Some ex \<and> bx \<le> target \<and> target \<le> ex) then 0 else 1)
                \<or> (if (\<exists>e. parse_dt (EndTime r) = Some e \<and> bt \<le> target \<and> target \<le> e) then 0 else 1 :: nat)
                     = (if (\<exists>ex. parse_dt (EndTime x) = Some ex \<and> bx \<le> target \<and> target \<le> ex) then 0 else 1)
                   \<and> \<bar>bt - target\<bar> \<le> \<bar>bx - target\<bar>)))
   \<and> (pick_closest_file parse_dt rows target = Some r \<longrightarrow>
        (\<forall>x \<in> set rows. \<forall>bx ex.
            parse_dt (BeginTime x) = Some bx \<and> parse_dt (EndTime x) = Some ex
              \<and> bx \<le> target \<and> target \<le> ex \<longrightarrow>
            (\<exists>bt e. parse_dt (BeginTime r) = Some bt \<and> parse_dt (EndTime r) = Some e
               \<and> bt \<le> target \<and> target \<le> e)))
   \<and> (parse_dt (BeginTime r1) = Some (target - 5) \<and> parse_dt (BeginTime r2) = Some (target - 1)
        \<and> parse_dt (EndTime r2) = Some (target + 2) \<and> parse_dt (BeginTime r3) = Some (target + 290)
        \<longrightarrow> pick_closest_file parse_dt [r1, r2, r3] target = Some r2)
   \<and> (parse_dt (BeginTime r1) = Some b \<and> parse_dt (BeginTime r2) = Some b
        \<and> parse_dt (EndTime r1) = None \<and> parse_dt (EndTime r2) = None
        \<longrightarrow> pick_closest_file parse_dt [r1, r2] target = Some r1)"
proof (intro conjI)
  show "pick_closest_file parse_dt rows target = None
      \<longleftrightarrow> (\<forall>x \<in> set rows. parse_dt (BeginTime x) = None)"
    by (rule pick_closest_file_None)
next
  show "pick_closest_file parse_dt rows target = Some r \<longrightarrow>
        (\<exists>pre post bt. rows = pre @ r # post \<and> parse_dt (BeginTime r) = Some bt
          \<and> (\<forall>x \<in> set pre. \<forall>bx. parse_dt (BeginTime x) = Some bx \<longrightarrow>
                (if (\<exists>e. parse_dt (EndTime r) = Some e \<and> bt \<le> target \<and> target \<le> e) then 0 else 1 :: nat)
                  < (if (\<exists>ex. parse_dt (EndTime x) = Some ex \<and> bx \<le> target \<and> target \<le> ex) then 0 else 1)
                \<or> (if (\<exists>e. parse_dt (EndTime r) = Some e \<and> bt \<le> target \<and> target \<le> e) then 0 else 1 :: nat)
                     = (if (\<exists>ex. parse_dt (EndTime x) = Some ex \<and> bx \<le> target \<and> target \<le> ex) then 0 else 1)
                   \<and> \<bar>bt - target\<bar> < \<bar>bx - target\<bar>)
          \<and> (\<forall>x \<in> set post. \<forall>bx. parse_dt (BeginTime x) = Some bx \<longrightarrow>
                (if (\<exists>e. parse_dt (EndTime r) = Some e \<and> bt \<le> target \<and> target \<le> e) then 0 else 1 :: nat)
                  < (if (\<exists>ex. parse_dt (EndTime x) = Some ex \<and> bx \<le> target \<and> target \<le> ex) then 0 else 1)
                \<or> (if (\<exists>e. parse_dt (EndTime r) = Some e \<and> bt \<le> target \<and> target \<le> e) then 0 else 1 :: nat)
                     = (if (\<exists>ex. parse_dt (EndTime x) = Some ex \<and> bx \<le> target \<and> target \<le> ex) then 0 else 1)
                   \<and> \<bar>bt - target\<bar> \<le> \<bar>bx - target\<bar>))"
    by (rule impI) (rule pick_closest_file_spelled)
next
  show "pick_closest_file parse_dt rows target = Some r \<longrightarrow>
        (\<forall>x \<in> set rows. \<forall>bx ex.
            parse_dt (BeginTime x) = Some bx \<and> parse_dt (EndTime x) = Some ex
              \<and> bx \<le> target \<and> target \<le> ex \<longrightarrow>
            (\<exists>bt e. parse_dt (BeginTime r) = Some bt \<and> parse_dt (EndTime r) = Some e
               \<and> bt \<le> target \<and> target \<le> e))"
    using pick_closest_file_prefers_in_range [of parse_dt rows target r] by blast
next
  show "parse_dt (BeginTime r1) = Some (target - 5) \<and> parse_dt (BeginTime r2) = Some (target - 1)
        \<and> parse_dt (EndTime r2) = Some (target + 2) \<and> parse_dt (BeginTime r3) = Some (target + 290)
        \<longrightarrow> pick_closest_file parse_dt [r1, r2, r3] target = Some r2"
    by (simp add: pick_closest_file_scenario)
next
  show "parse_dt (BeginTime r1) = Some b \<and> parse_dt (BeginTime r2) = Some b
        \<and> parse_dt (EndTime r1) = None \<and> parse_dt (EndTime r2) = None
        \<longrightarrow> pick_closest_file parse_dt [r1, r2] target = Some r1"
    by (simp add: pick_closest_file_tie)
qed

text \<open>The rows of the scenario, parsed by \<open>strptime_canonical\<close>.\<close>

lemma strptime_100005: "strptime_canonical ''2024-01-01 10:00:05'' = Some 63839786405"
  by (simp add: strptime_eval)

lemma strptime_100009: "strptime_canonical ''2024-01-01 10:00:09'' = Some 63839786409"
  by (simp add: strptime_eval)

lemma strptime_100012: "strptime_canonical ''2024-01-01 10:00:12'' = Some 63839786412"
  by (simp add: strptime_eval)

lemma strptime_100500: "strptime_canonical ''2024-01-01 10:05:00'' = Some 63839786700"
  by (simp add: strptime_eval)

lemma strptime_empty: "strptime_canonical [] = None"
  by (simp add: strptime_canonical_def)

text \<open>
  Three concrete lists around the target 10:00:10. The scenario of the claim; an in-range
  row (10:00:05 to 10:00:12) that follows a nearer row out of range (10:00:09, no end
  time); and two rows of equal key (10:00:09, no end time), of which the first is picked.
\<close>

theorem pick_closest_file_minimal_witness:
  "strptime_canonical ''2024-01-01 10:00:10'' = Some 63839786410
   \<and> pick_closest_file strptime_canonical
     [\<lparr>FileName = ''/idea1/2024-01-01/001/10.00.05-10.00.05[M][@0][0].jpg'',
        BeginTime = ''2024-01-01 10:00:05'', EndTime = ''2024-01-01 10:00:05''\<rparr>,
      \<lparr>FileName = ''/idea1/2024-01-01/001/10.00.09-10.00.12[M][@0][0].jpg'',
        BeginTime = ''2024-01-01 10:00:09'', EndTime = ''2024-01-01 10:00:12''\<rparr>,
      \<lparr>FileName = ''/idea1/2024-01-01/001/10.05.00-10.05.00[M][@0][0].jpg'',
        BeginTime = ''2024-01-01 10:05:00'', EndTime = ''2024-01-01 10:05:00''\<rparr>]
     63839786410
   = Some \<lparr>FileName = ''/idea1/2024-01-01/001/10.00.09-10.00.12[M][@0][0].jpg'',
        BeginTime = ''2024-01-01 10:00:09'', EndTime = ''2024-01-01 10:00:12''\<rparr>
   \<and> pick_closest_file strptime_canonical
     [\<lparr>FileName = ''near'', BeginTime = ''2024-01-01 10:00:09'', EndTime = []\<rparr>,
      \<lparr>FileName = ''in_range'', BeginTime = ''2024-01-01 10:00:05'',
        EndTime = ''2024-01-01 10:00:12''\<rparr>]
     63839786410
   = Some \<lparr>FileName = ''in_range'', BeginTime = ''2024-01-01 10:00:05'',
        EndTime = ''2024-01-01 10:00:12''\<rparr>
   \<and> pick_closest_file strptime_canonical
     [\<lparr>FileName = ''first'', BeginTime = ''2024-01-01 10:00:09'', EndTime = []\<rparr>,
      \<lparr>FileName = ''second'', BeginTime = ''2024-01-01 10:00:09'', EndTime = []\<rparr>]
     63839786410
   = Some \<lparr>FileName = ''first'', BeginTime = ''2024-01-01 10:00:09'', EndTime = []\<rparr>"
proof -
  let ?r1 = "\<lparr>FileName = ''/idea1/2024-01-01/001/10.00.05-10.00.05[M][@0][0].jpg'',
        BeginTime = ''2024-01-01 10:00:05'', EndTime = ''2024-01-01 10:00:05''\<rparr>"
  let ?r2 = "\<lparr>FileName = ''/idea1/2024-01-01/001/10.00.09-10.00.12[M][@0][0].jpg'',
        BeginTime = ''2024-01-01 10:00:09'', EndTime = ''2024-01-01 10:00:12''\<rparr>"
  let ?r3 = "\<lparr>FileName = ''/idea1/2024-01-01/001/10.05.00-10.05.00[M][@0][0].jpg'',
        BeginTime = ''2024-01-01 10:05:00'', EndTime = ''2024-01-01 10:05:00''\<rparr>"
  let ?near = "\<lparr>FileName = ''near'', BeginTime = ''2024-01-01 10:00:09'', EndTime = []\<rparr>"
  let ?inr = "\<lparr>FileName = ''in_range'', BeginTime = ''2024-01-01 10:00:05'',
        EndTime = ''2024-01-01 10:00:12''\<rparr>"
  let ?fst = "\<lparr>FileName = ''first'', BeginTime = ''2024-01-01 10:00:09'', EndTime = []\<rparr>"
  let ?snd = "\<lparr>FileName = ''second'', BeginTime = ''2024-01-01 10:00:09'', EndTime = []\<rparr>"
  have h: "strptime_canonical (BeginTime ?r1) = Some (63839786410 - 5)
      \<and> strptime_canonical (BeginTime ?r2) = Some (63839786410 - 1)
      \<and> strptime_canonical (EndTime ?r2) = Some (63839786410 + 2)
      \<and> strptime_canonical (BeginTime ?r3) = Some (63839786410 + 290)"
    by (simp add: strptime_100005 strptime_100009 strptime_100012 strptime_100500)
  have t: "strptime_canonical ''2024-01-01 10:00:10'' = Some 63839786410"
    by (simp add: strptime_eval)
  from pick_closest_file_minimal [of strptime_canonical "[?r1, ?r2, ?r3]" 63839786410 ?r2 ?r1 ?r2 ?r3] h
  have a: "pick_closest_file strptime_canonical [?r1, ?r2, ?r3] 63839786410 = Some ?r2"
    by blast
  have b: "pick_closest_file strptime_canonical [?near, ?inr] 63839786410 = Some ?inr"
    by (simp add: pick_closest_file_def pick_step_def row_key_def key_less_def Let_def
        strptime_100005 strptime_100009 strptime_100012 strptime_empty)
  have g: "strptime_canonical (BeginTime ?fst) = Some 63839786409
      \<and> strptime_canonical (BeginTime ?snd) = Some 63839786409
      \<and> strptime_canonical (EndTime ?fst) = None \<and> strptime_canonical (EndTime ?snd) = None"
    by (simp add: strptime_100009 strptime_empty)
  from pick_closest_file_minimal [of strptime_canonical "[?fst, ?snd]" 63839786410 ?fst ?fst
      ?snd ?r3 63839786409] g
  have c: "pick_closest_file strptime_canonical [?fst, ?snd] 63839786410 = Some ?fst"
    by blast
  from t a b c show ?thesis by simp
qed

section \<open>Hybrid extraction: \<open>_download_with_retries\<close>\<close>

text \<open>
  The exceptions the code raises or meets; all of them are caught by \<open>except Exception\<close>.
  \<open>exn_str\<close> is \<open>str(e)\<close>.
\<close>

datatype exn =
    ConnectionError string
  | ValueError string
  | RuntimeError string
  | OSError string
  | SocketTimeout
  | StructError string
  | OverflowError string

fun exn_str :: "exn \<Rightarrow> string" where
  "exn_str (ConnectionError m) = m"
| "exn_str (ValueError m) = m"
| "exn_str (RuntimeError m) = m"
| "exn_str (OSError m) = m"
| "exn_str SocketTimeout = ''timed out''"
| "exn_str (StructError m) = m"
| "exn_str (OverflowError m) = m"

text \<open>
  A \<open>datetime\<close> object lies between \<open>datetime.min\<close>, 0001-01-01 00:00:00, and
  \<open>datetime.max\<close>, 9999-12-31 23:59:59 at the resolution of a second. Adding a \<open>timedelta\<close>
  (here a number of seconds) that leaves this range raises \<open>OverflowError\<close>.
\<close>

definition datetime_min :: datetime where
  "datetime_min = 86400"

definition datetime_max :: datetime where
  "datetime_max = 315537983999"

definition add_seconds :: "datetime \<Rightarrow> int \<Rightarrow> exn + datetime" where
  "add_seconds d seconds =
     (if datetime_min \<le> d + seconds \<and> d + seconds \<le> datetime_max then Inr (d + seconds)
      else Inl (OverflowError ''date value out of range''))"

text \<open>\<open>str.strip()\<close>: the characters below 256 for which \<open>str.isspace\<close> holds.\<close>

definition isspace :: "char \<Rightarrow> bool" where
  "isspace c = (let n = (of_char c :: nat) in
     (9 \<le> n \<and> n \<le> 13) \<or> (28 \<le> n \<and> n \<le> 32) \<or> n = 133 \<or> n = 160)"

definition strip :: "string \<Rightarrow> string" where
  "strip s = rev (dropWhile isspace (rev (dropWhile isspace s)))"

text \<open>
  The events of one call, in order: a call of \<open>download_motion_file_h264\<close> (with the number
  of the attempt) and a \<open>time.sleep\<close> (in milliseconds).
\<close>

datatype event = Download nat | Sleep nat

text \<open>
  The first lines of \<open>_download_with_retries\<close>: the end time sent to the camera. They stand
  above the loop and outside its \<open>try\<close>, so the \<open>OverflowError\<close> of
  \<open>dt + timedelta(seconds=1)\<close> leaves the function before any attempt.
\<close>

definition bumped_end_time ::
  "(string \<Rightarrow> datetime option) \<Rightarrow> (datetime \<Rightarrow> string) \<Rightarrow> string \<Rightarrow> string \<Rightarrow> exn + string" where
  "bumped_end_time parse_dt strftime begin_time end_time =
     (let bt = strip begin_time; et = strip end_time in
        if bt \<noteq> [] \<and> (et = [] \<or> et = bt) then
          (case parse_dt bt of
             Some dt \<Rightarrow>
               (case add_seconds dt 1 of
                  Inl e \<Rightarrow> Inl e
                | Inr bumped \<Rightarrow> Inr (strftime bumped))
           | None \<Rightarrow> Inr bt)
        else Inr et)"

text \<open>
  The \<open>for attempt in range(1, tries + 1)\<close> loop. \<open>download attempt\<close> is the outcome of the
  call of \<open>download_motion_file_h264\<close> made at that attempt: its payload, or the exception
  it raises. The \<open>raise RuntimeError\<close> below the loop is the last branch.
\<close>

function attempt_loop ::
  "(nat \<Rightarrow> exn + bytes) \<Rightarrow> nat \<Rightarrow> nat \<Rightarrow> exn option \<Rightarrow> event list \<Rightarrow> (exn + bytes) \<times> event list" where
  "attempt_loop download tries attempt last_err trace =
     (if attempt \<le> tries then
        (case download attempt of
           Inr payload \<Rightarrow> (Inr payload, trace @ [Download attempt])
         | Inl e \<Rightarrow>
             if attempt < tries
             then attempt_loop download tries (attempt + 1) (Some e) (trace @ [Download attempt, Sleep 800])
             else (Inl e, trace @ [Download attempt]))
      else (Inl (RuntimeError (case last_err of Some e \<Rightarrow> exn_str e | None \<Rightarrow> ''download_failed'')), trace))"
  by pat_completeness auto
termination
  by (relation "measure (\<lambda>(download, tries, attempt, last_err, trace). tries - attempt)") auto

declare attempt_loop.simps [simp del]

definition download_with_retries ::
  "(string \<Rightarrow> datetime option) \<Rightarrow> (datetime \<Rightarrow> string)
     \<Rightarrow> (string \<Rightarrow> string \<Rightarrow> string \<Rightarrow> nat \<Rightarrow> exn + bytes)
     \<Rightarrow> string \<Rightarrow> string \<Rightarrow> string \<Rightarrow> int \<Rightarrow> (exn + bytes) \<times> event list" where
  "download_with_retries parse_dt strftime download_motion_file_h264 filename begin_time end_time retries =
     (let bt = strip begin_time in
        case bumped_end_time parse_dt strftime begin_time end_time of
          Inl e \<Rightarrow> (Inl e, [])
        | Inr et \<Rightarrow>
            let tries = nat (max 1 retries)
            in attempt_loop (download_motion_file_h264 filename bt et) tries 1 None [])"

text \<open>When the end time is given and differs from the begin time it is sent as it is.\<close>

lemma bumped_end_time_given:
  assumes "strip end_time \<noteq> []" and "strip end_time \<noteq> strip begin_time"
  shows "bumped_end_time parse_dt strftime begin_time end_time = Inr (strip end_time)"
  using assms by (simp add: bumped_end_time_def Let_def)

lemma strip_timestamp:
  "strip ''2024-01-01 10:00:09'' = ''2024-01-01 10:00:09''"
  "strip ''2024-01-01 10:00:12'' = ''2024-01-01 10:00:12''"
  by (simp_all add: strip_def isspace_def)

text \<open>The events up to a download at attempt \<open>k\<close>, starting from attempt \<open>a\<close>.\<close>

definition attempts_log :: "nat \<Rightarrow> nat \<Rightarrow> event list" where
  "attempts_log a k = concat (map (\<lambda>i. [Download i, Sleep 800]) [a..<k]) @ [Download k]"

lemma attempt_loop_success:
  assumes "a \<le> k" "k \<le> tries" "\<forall>j. a \<le> j \<and> j < k \<longrightarrow> isl (download j)" "download k = Inr p"
  shows "attempt_loop download tries a last_err trace = (Inr p, trace @ attempts_log a k)"
  using assms
proof (induction "k - a" arbitrary: a last_err trace)
  case 0
  then have "a = k" by simp
  with 0 show ?case
    by (subst attempt_loop.simps) (simp add: attempts_log_def)
next
  case (Suc n)
  then have lt: "a < k" by simp
  with Suc.prems obtain e where e: "download a = Inl e"
    by (metis isl_def le_refl)
  have ih: "attempt_loop download tries (a + 1) (Some e) (trace @ [Download a, Sleep 800])
              = (Inr p, (trace @ [Download a, Sleep 800]) @ attempts_log (a + 1) k)"
    by (rule Suc.hyps(1)) (use Suc.hyps(2) Suc.prems lt in auto)
  have "attempts_log a k = [Download a, Sleep 800] @ attempts_log (a + 1) k"
    using lt by (simp add: attempts_log_def upt_conv_Cons)
  with ih e lt Suc.prems(2) show ?case
    by (subst attempt_loop.simps) simp
qed

lemma attempt_loop_failure:
  assumes "a \<le> tries" "\<forall>j. a \<le> j \<and> j \<le> tries \<longrightarrow> isl (download j)"
  shows "attempt_loop download tries a last_err trace = (Inl (projl (download tries)), trace @ attempts_log a tries)"
  using assms
proof (induction "tries - a" arbitrary: a last_err trace)
  case 0
  then have "a = tries" by simp
  with 0 show ?case
    by (subst attempt_loop.simps) (auto simp: attempts_log_def isl_def)
next
  case (Suc n)
  then have lt: "a < tries" by simp
  with Suc.prems obtain e where e: "download a = Inl e"
    by (metis isl_def le_refl less_imp_le)
  have ih: "attempt_loop download tries (a + 1) (Some e) (trace @ [Download a, Sleep 800])
              = (Inl (projl (download tries)), (trace @ [Download a, Sleep 800]) @ attempts_log (a + 1) tries)"
    by (rule Suc.hyps(1)) (use Suc.hyps(2) Suc.prems lt in auto)
  have "attempts_log a tries = [Download a, Sleep 800] @ attempts_log (a + 1) tries"
    using lt by (simp add: attempts_log_def upt_conv_Cons)
  with ih e lt show ?case
    by (subst attempt_loop.simps) simp
qed


text \<open>
  Claim C3, as amended. Once the end time to send is computed, \<open>_download_with_retries\<close>
  makes at most \<open>max(1, retries)\<close> attempts in all: with \<open>retries = 2\<close> two attempts, one
  beyond the first. It sleeps 0.8 s after each failed attempt but the last, returns the
  payload of the first attempt that succeeds within this budget, and when every attempt of
  the budget fails the error of the last one is raised again. When the one-second bump of
  an empty or equal end time leaves the range of \<open>datetime\<close>, its \<open>OverflowError\<close> is
  raised and no attempt is made.
\<close>

theorem download_with_retries_budget:
  "(tries = nat (max 1 retries)
      \<and> bumped_end_time parse_dt strftime begin_time end_time = Inr et
      \<and> download = download_motion_file_h264 filename (strip begin_time) et
    \<longrightarrow>
      (1 \<le> k \<and> k \<le> tries \<and> (\<forall>j. 1 \<le> j \<and> j < k \<longrightarrow> isl (download j)) \<and> download k = Inr p
         \<longrightarrow> download_with_retries parse_dt strftime download_motion_file_h264
               filename begin_time end_time retries = (Inr p, attempts_log 1 k))
      \<and> ((\<forall>j. 1 \<le> j \<and> j \<le> tries \<longrightarrow> isl (download j))
         \<longrightarrow> download_with_retries parse_dt strftime download_motion_file_h264
               filename begin_time end_time retries
             = (Inl (projl (download tries)), attempts_log 1 tries)))
   \<and> (bumped_end_time parse_dt strftime begin_time end_time = Inl e
    \<longrightarrow> download_with_retries parse_dt strftime download_motion_file_h264
               filename begin_time end_time retries = (Inl e, []))"
proof (intro conjI impI)
  assume b: "tries = nat (max 1 retries)
      \<and> bumped_end_time parse_dt strftime begin_time end_time = Inr et
      \<and> download = download_motion_file_h264 filename (strip begin_time) et"
    and a: "1 \<le> k \<and> k \<le> tries \<and> (\<forall>j. 1 \<le> j \<and> j < k \<longrightarrow> isl (download j)) \<and> download k = Inr p"
  from a have "attempt_loop download tries 1 None [] = (Inr p, [] @ attempts_log 1 k)"
    by (intro attempt_loop_success) auto
  with b show "download_with_retries parse_dt strftime download_motion_file_h264
                  filename begin_time end_time retries = (Inr p, attempts_log 1 k)"
    by (simp add: download_with_retries_def Let_def)
next
  assume b: "tries = nat (max 1 retries)
      \<and> bumped_end_time parse_dt strftime begin_time end_time = Inr et
      \<and> download = download_motion_file_h264 filename (strip begin_time) et"
    and a: "\<forall>j. 1 \<le> j \<and> j \<le> tries \<longrightarrow> isl (download j)"
  from b have "1 \<le> tries" by simp
  with a have "attempt_loop download tries 1 None []
                 = (Inl (projl (download tries)), [] @ attempts_log 1 tries)"
    by (intro attempt_loop_failure) auto
  with b show "download_with_retries parse_dt strftime download_motion_file_h264
                  filename begin_time end_time retries
                = (Inl (projl (download tries)), attempts_log 1 tries)"
    by (simp add: download_with_retries_def Let_def)
next
  assume "bumped_end_time parse_dt strftime begin_time end_time = Inl e"
  then show "download_with_retries parse_dt strftime download_motion_file_h264
               filename begin_time end_time retries = (Inl e, [])"
    by (simp add: download_with_retries_def Let_def)
qed

text \<open>
  With \<open>retries = 2\<close>, a download that fails once with a reset and then succeeds returns
  its payload after one sleep; and a marker that begins at 9999-12-31 23:59:59 with no end
  time is not downloaded at all.
\<close>

lemma strptime_datetime_max:
  "strptime_canonical ''9999-12-31 23:59:59'' = Some 315537983999"
  by (simp add: strptime_eval)

theorem download_with_retries_budget_witness:
  "download_with_retries strptime_canonical strftime_canonical
     (\<lambda>filename bt et attempt.
        if attempt < 2 then Inl (ConnectionError ''socket closed'') else Inr [0, 0, 1, 0xFC])
     ''/idea1/2024-01-01/001/10.00.09-10.00.12[M][@0][0].jpg''
     ''2024-01-01 10:00:09'' ''2024-01-01 10:00:12'' 2
   = (Inr [0, 0, 1, 0xFC], [Download 1, Sleep 800, Download 2])
   \<and> download_with_retries strptime_canonical strftime_canonical
     (\<lambda>filename bt et attempt. Inr [0, 0, 1, 0xFC])
     ''/idea1/9999-12-31/001/23.59.59-23.59.59[M][@0][0].jpg''
     ''9999-12-31 23:59:59'' [] 2
   = (Inl (OverflowError ''date value out of range''), [])"
proof -
  let ?dl = "\<lambda>(filename :: string) (bt :: string) (et :: string) (attempt :: nat).
        if attempt < 2 then Inl (ConnectionError ''socket closed'') else (Inr [0, 0, 1, 0xFC] :: exn + bytes)"
  let ?f = "''/idea1/2024-01-01/001/10.00.09-10.00.12[M][@0][0].jpg''"
  let ?download = "?dl ?f (strip ''2024-01-01 10:00:09'') ''2024-01-01 10:00:12''"
  have b: "bumped_end_time strptime_canonical strftime_canonical
             ''2024-01-01 10:00:09'' ''2024-01-01 10:00:12'' = Inr ''2024-01-01 10:00:12''"
    using bumped_end_time_given [of "''2024-01-01 10:00:12''" "''2024-01-01 10:00:09''"]
    by (simp add: strip_timestamp)
  have h: "1 \<le> (2::nat) \<and> (2::nat) \<le> 2 \<and> (\<forall>j. 1 \<le> j \<and> j < 2 \<longrightarrow> isl (?download j))
             \<and> ?download 2 = Inr [0, 0, 1, 0xFC]"
    by simp
  have l: "attempts_log 1 2 = [Download 1, Sleep 800, Download 2]"
    by (simp add: attempts_log_def upt_conv_Cons)
  have first: "download_with_retries strptime_canonical strftime_canonical ?dl ?f
                 ''2024-01-01 10:00:09'' ''2024-01-01 10:00:12'' 2
               = (Inr [0, 0, 1, 0xFC], [Download 1, Sleep 800, Download 2])"
    using download_with_retries_budget [where tries = 2 and retries = 2
          and parse_dt = strptime_canonical and strftime = strftime_canonical
          and begin_time = "''2024-01-01 10:00:09''" and end_time = "''2024-01-01 10:00:12''"
          and et = "''2024-01-01 10:00:12''" and download = ?download
          and ?download_motion_file_h264.0 = ?dl and filename = ?f and k = 2
          and p = "[0, 0, 1, 0xFC]"] b h l
    by simp
  have s: "strip ''9999-12-31 23:59:59'' = ''9999-12-31 23:59:59''"
    by (simp add: strip_def isspace_def)
  have o: "bumped_end_time strptime_canonical strftime_canonical ''9999-12-31 23:59:59'' []
             = Inl (OverflowError ''date value out of range'')"
    by (simp add: bumped_end_time_def Let_def s strptime_datetime_max add_seconds_def
        datetime_min_def datetime_max_def) (simp add: strip_def)
  have second: "download_with_retries strptime_canonical strftime_canonical
                  (\<lambda>filename bt et attempt. Inr [0, 0, 1, 0xFC])
                  ''/idea1/9999-12-31/001/23.59.59-23.59.59[M][@0][0].jpg''
                  ''9999-12-31 23:59:59'' [] 2
                = (Inl (OverflowError ''date value out of range''), [])"
    using download_with_retries_budget [where parse_dt = strptime_canonical
          and strftime = strftime_canonical and begin_time = "''9999-12-31 23:59:59''"
          and end_time = "[]" and e = "OverflowError ''date value out of range''"] o
    by blast
  from first second show ?thesis by simp
qed

text \<open>
  The claim C3 as stated fails. With \<open>retries = 2\<close>, a download that fails with a reset at
  the first two attempts and would succeed at the third is attempted twice: the second
  reset is raised again, and there is no third attempt.
\<close>

theorem download_with_retries_no_third_attempt:
  "download_with_retries strptime_canonical strftime_canonical
     (\<lambda>filename bt et attempt.
        if attempt < 3 then Inl (ConnectionError ''[Errno 104] Connection reset by peer'')
        else Inr [0, 0, 1, 0xFC])
     ''/idea1/2024-01-01/001/10.00.09-10.00.12[M][@0][0].jpg''
     ''2024-01-01 10:00:09'' ''2024-01-01 10:00:12'' 2
   = (Inl (ConnectionError ''[Errno 104] Connection reset by peer''),
      [Download 1, Sleep 800, Download 2])"
proof -
  have "bumped_end_time strptime_canonical strftime_canonical
             ''2024-01-01 10:00:09'' ''2024-01-01 10:00:12'' = Inr ''2024-01-01 10:00:12''"
    using bumped_end_time_given [of "''2024-01-01 10:00:12''" "''2024-01-01 10:00:09''"]
    by (simp add: strip_timestamp)
  then show ?thesis
    by (simp add: download_with_retries_def Let_def attempt_loop.simps)
qed

section \<open>Hybrid extraction: \<open>extract_alarm_photo_hybrid\<close>\<close>

text \<open>
  The result of \<open>extract_best_jpeg_from_motion_h264\<close> (the dataclass \<open>ExtractResult\<close>,
  without its debug directory).
\<close>

record ExtractResult =
  er_ok :: bool
  er_reason :: string
  er_jpeg_bytes :: "bytes option"
  er_chosen_frame_index :: "nat option"

text \<open>
  What the function meets outside itself. A session is the \<open>DVRIPCam\<close> object of a tier
  (1 for the photo marker, 2 for the motion clip): \<open>login\<close> is its construction and
  \<open>cam.login()\<close>, \<open>opfilequery\<close> the rows that \<open>_opfilequery\<close> returns for a window, an
  event and a file type, \<open>download_motion_file_h264\<close> the outcome of the download at a
  given attempt. Each of them may raise. \<open>cv2_select\<close> is the part of
  \<open>extract_best_jpeg_from_motion_h264\<close> below the demuxer, which writes the stream to a
  file, decodes and scores the sampled frames with OpenCV and encodes the winner;
  \<open>bottom_white_ratio\<close> is \<open>_bottom_white_ratio\<close>, which decodes the JPEG with OpenCV and
  catches every exception. \<open>big_endian\<close> is the byte order of the host.
\<close>

record camera =
  HAS_DVRIP :: bool
  login :: "nat \<Rightarrow> exn + bool"
  opfilequery :: "nat \<Rightarrow> string \<Rightarrow> string \<Rightarrow> string \<Rightarrow> string \<Rightarrow> exn + row list"
  download_motion_file_h264 :: "nat \<Rightarrow> string \<Rightarrow> string \<Rightarrow> string \<Rightarrow> nat \<Rightarrow> exn + bytes"
  cv2_select :: "bytes \<Rightarrow> nat list \<Rightarrow> string \<Rightarrow> exn + ExtractResult"
  bottom_white_ratio :: "bytes \<Rightarrow> real option"
  big_endian :: bool

definition extract_best_jpeg_from_motion_h264 ::
  "camera \<Rightarrow> bytes \<Rightarrow> nat list \<Rightarrow> string \<Rightarrow> exn + ExtractResult" where
  "extract_best_jpeg_from_motion_h264 cam stream_1426 sample_frame_indexes score_mode =
     (if stream_1426 = [] then
        Inr \<lparr>er_ok = False, er_reason = ''empty_1426_stream'', er_jpeg_bytes = None,
             er_chosen_frame_index = None\<rparr>
      else
        let media = extract_media_from_1426 (big_endian cam) stream_1426 in
          if media = [] then
            Inr \<lparr>er_ok = False, er_reason = ''failed_to_extract_h264'', er_jpeg_bytes = None,
                 er_chosen_frame_index = None\<rparr>
          else cv2_select cam media sample_frame_indexes score_mode)"

text \<open>The diagnostic dict of a tier and the \<open>meta\<close> dict of the result.\<close>

record extract_meta =
  ex_ok :: bool
  ex_reason :: string
  ex_chosen_frame_index :: "nat option"
  ex_bottom_white_ratio :: "real option"

record tier_meta =
  tm_window :: "(string \<times> string) option"
  tm_count :: "nat option"
  tm_picked :: "row option"
  tm_download :: "(bool \<times> nat) option"
  tm_extract :: "extract_meta option"
  tm_error :: "string option"

record meta =
  ok :: bool
  reason :: string
  target :: string
  chosen :: "string option"
  idea1 :: "tier_meta option"
  motion :: "tier_meta option"

definition empty_tier_meta :: tier_meta where
  "empty_tier_meta = \<lparr>tm_window = None, tm_count = None, tm_picked = None, tm_download = None,
     tm_extract = None, tm_error = None\<rparr>"

text \<open>
  The body of a tier's \<open>try\<close> block after a successful login. The two blocks of the source
  differ in the half width of the window (in seconds), the event, the file type, the sampled
  frame indexes and the score mode. The result is the JPEG of the tier (\<open>idea1_jpeg\<close> or
  \<open>motion_jpeg\<close>) and the tier's dict; an exception ends the block with the key \<open>error\<close>.
\<close>

text \<open>
  The window of a tier: \<open>target_dt - timedelta(...)\<close> and \<open>target_dt + timedelta(...)\<close>,
  formatted. Both are computed inside the \<open>try\<close> block, and either may raise
  \<open>OverflowError\<close>.
\<close>

definition tier_window :: "(datetime \<Rightarrow> string) \<Rightarrow> datetime \<Rightarrow> int \<Rightarrow> exn + string \<times> string" where
  "tier_window strftime target_dt half_window =
     (case add_seconds target_dt (- half_window) of
        Inl e \<Rightarrow> Inl e
      | Inr begin_dt \<Rightarrow>
          (case add_seconds target_dt half_window of
             Inl e \<Rightarrow> Inl e
           | Inr end_dt \<Rightarrow> Inr (strftime begin_dt, strftime end_dt)))"

definition tier_body ::
  "camera \<Rightarrow> (string \<Rightarrow> datetime option) \<Rightarrow> (datetime \<Rightarrow> string) \<Rightarrow> nat \<Rightarrow> datetime \<Rightarrow> int
     \<Rightarrow> string \<Rightarrow> string \<Rightarrow> nat list \<Rightarrow> string \<Rightarrow> int \<Rightarrow> bytes option \<times> tier_meta" where
  "tier_body cam parse_dt strftime session target_dt half_window event ftype sample score_mode
       download_retries =
     (case tier_window strftime target_dt half_window of
        Inl e \<Rightarrow> (None, empty_tier_meta\<lparr>tm_error := Some (exn_str e)\<rparr>)
      | Inr (begin, end) \<Rightarrow>
        case opfilequery cam session begin end event ftype of
           Inl e \<Rightarrow> (None, empty_tier_meta\<lparr>tm_error := Some (exn_str e)\<rparr>)
         | Inr rows \<Rightarrow>
             let picked = pick_closest_file parse_dt rows target_dt;
                 m = empty_tier_meta\<lparr>tm_window := Some (begin, end), tm_count := Some (length rows),
                                      tm_picked := picked\<rparr>
             in case picked of
                  None \<Rightarrow> (None, m)
                | Some p \<Rightarrow>
                    let fname = FileName p;
                        bt = BeginTime p;
                        et = (if EndTime p = [] then bt else EndTime p)
                    in case fst (download_with_retries parse_dt strftime
                                   (download_motion_file_h264 cam session) fname bt et download_retries) of
                         Inl e \<Rightarrow> (None, m\<lparr>tm_error := Some (exn_str e)\<rparr>)
                       | Inr raw \<Rightarrow>
                           (case extract_best_jpeg_from_motion_h264 cam raw sample score_mode of
                              Inl e \<Rightarrow> (None, m\<lparr>tm_error := Some (exn_str e)\<rparr>)
                            | Inr res \<Rightarrow>
                                (case er_jpeg_bytes res of
                                   Some jpeg \<Rightarrow>
                                     if er_ok res \<and> jpeg \<noteq> [] then
                                       (Some jpeg,
                                        m\<lparr>tm_download := Some (True, length raw),
                                          tm_extract := Some \<lparr>ex_ok = True, ex_reason = er_reason res,
                                            ex_chosen_frame_index = er_chosen_frame_index res,
                                            ex_bottom_white_ratio = bottom_white_ratio cam jpeg\<rparr>\<rparr>)
                                     else
                                       (None,
                                        m\<lparr>tm_download := Some (True, length raw),
                                          tm_extract := Some \<lparr>ex_ok = False, ex_reason = er_reason res,
                                            ex_chosen_frame_index = None,
                                            ex_bottom_white_ratio = None\<rparr>\<rparr>)
                                 | None \<Rightarrow>
                                     (None,
                                      m\<lparr>tm_download := Some (True, length raw),
                                        tm_extract := Some \<lparr>ex_ok = False, ex_reason = er_reason res,
                                          ex_chosen_frame_index = None,
                                          ex_bottom_white_ratio = None\<rparr>\<rparr>))))"

text \<open>
  The first tier. A login that returns false ends the whole function (\<open>None\<close> here); a
  login that raises is caught like any exception of the block.
\<close>

definition idea1_tier ::
  "camera \<Rightarrow> (string \<Rightarrow> datetime option) \<Rightarrow> (datetime \<Rightarrow> string) \<Rightarrow> datetime \<Rightarrow> int
     \<Rightarrow> (bytes option \<times> tier_meta) option" where
  "idea1_tier cam parse_dt strftime target_dt download_retries =
     (case login cam 1 of
        Inl e \<Rightarrow> Some (None, empty_tier_meta\<lparr>tm_error := Some (exn_str e)\<rparr>)
      | Inr logged_in \<Rightarrow>
          if \<not> logged_in then None
          else Some (tier_body cam parse_dt strftime 1 target_dt 20 ''*'' ''jpg''
                       [0, 1, 2, 3, 5, 8, 10, 12, 14, 16, 18, 20, 24, 28, 32] ''content''
                       download_retries))"

text \<open>The second tier, where a login that returns false is recorded as the tier's error.\<close>

definition motion_tier ::
  "camera \<Rightarrow> (string \<Rightarrow> datetime option) \<Rightarrow> (datetime \<Rightarrow> string) \<Rightarrow> datetime \<Rightarrow> int
     \<Rightarrow> bytes option \<times> tier_meta" where
  "motion_tier cam parse_dt strftime target_dt download_retries =
     (case login cam 2 of
        Inl e \<Rightarrow> (None, empty_tier_meta\<lparr>tm_error := Some (exn_str e)\<rparr>)
      | Inr logged_in \<Rightarrow>
          if \<not> logged_in then (None, empty_tier_meta\<lparr>tm_error := Some ''dvrip_login_failed''\<rparr>)
          else tier_body cam parse_dt strftime 2 target_dt 180 ''M'' ''h264''
                 [0, 10, 30, 60, 90, 120, 150, 180] ''sharpness'' download_retries)"

text \<open>\<open>meta["idea1"].get("extract", {}).get("bottom_white_ratio")\<close>\<close>

definition meta_bottom_white_ratio :: "tier_meta \<Rightarrow> real option" where
  "meta_bottom_white_ratio m =
     (case tm_extract m of None \<Rightarrow> None | Some ex \<Rightarrow> ex_bottom_white_ratio ex)"

definition extract_alarm_photo_hybrid ::
  "camera \<Rightarrow> (string \<Rightarrow> datetime option) \<Rightarrow> (datetime \<Rightarrow> string) \<Rightarrow> datetime \<Rightarrow> string \<Rightarrow> int \<Rightarrow> real
     \<Rightarrow> bytes option \<times> meta" where
  "extract_alarm_photo_hybrid cam parse_dt strftime target_dt password download_retries
       bottom_white_threshold =
     (let meta = \<lparr>ok = False, reason = ''init'', target = strftime target_dt, chosen = None,
                   idea1 = None, motion = None\<rparr>
      in if \<not> HAS_DVRIP cam then (None, meta\<lparr>reason := ''python-dvr_not_available''\<rparr>)
         else if password = [] then (None, meta\<lparr>reason := ''empty_password''\<rparr>)
         else
           case idea1_tier cam parse_dt strftime target_dt download_retries of
             None \<Rightarrow> (None, meta\<lparr>reason := ''dvrip_login_failed''\<rparr>)
           | Some (idea1_jpeg, idea1_meta) \<Rightarrow>
               let meta = meta\<lparr>idea1 := Some idea1_meta\<rparr> in
                 if idea1_jpeg \<noteq> None
                    \<and> (case meta_bottom_white_ratio idea1_meta of
                          None \<Rightarrow> False
                        | Some bw \<Rightarrow> bw < bottom_white_threshold)
                 then (idea1_jpeg, meta\<lparr>ok := True, reason := ''ok'', chosen := Some ''idea1''\<rparr>)
                 else
                   let (motion_jpeg, motion_meta) =
                         motion_tier cam parse_dt strftime target_dt download_retries;
                       meta = meta\<lparr>motion := Some motion_meta\<rparr>
                   in if motion_jpeg \<noteq> None then
                        (motion_jpeg,
                         meta\<lparr>ok := True, reason := ''ok_fallback_motion'', chosen := Some ''motion''\<rparr>)
                      else if idea1_jpeg \<noteq> None then
                        (idea1_jpeg,
                         meta\<lparr>ok := True, reason := ''ok_but_bottom_white'', chosen := Some ''idea1''\<rparr>)
                      else (None, meta\<lparr>reason := ''no_photo''\<rparr>))"


lemma hybrid_last_resort:
  assumes "HAS_DVRIP cam" and "password \<noteq> []"
    and "idea1_tier cam parse_dt strftime target_dt download_retries = Some (Some jpeg, idea1_meta)"
    and "meta_bottom_white_ratio idea1_meta = Some bw" and "bottom_white_threshold \<le> bw"
    and "fst (motion_tier cam parse_dt strftime target_dt download_retries) = None"
  shows "extract_alarm_photo_hybrid cam parse_dt strftime target_dt password download_retries
           bottom_white_threshold
         = (Some jpeg,
            \<lparr>ok = True, reason = ''ok_but_bottom_white'', target = strftime target_dt,
             chosen = Some ''idea1'', idea1 = Some idea1_meta,
             motion = Some (snd (motion_tier cam parse_dt strftime target_dt download_retries))\<rparr>)"
proof -
  obtain mj mm where m: "motion_tier cam parse_dt strftime target_dt download_retries = (mj, mm)"
    by (cases "motion_tier cam parse_dt strftime target_dt download_retries")
  with assms(6) have "mj = None" by simp
  with assms(1-5) m show ?thesis
    by (simp add: extract_alarm_photo_hybrid_def Let_def)
qed

lemma hybrid_no_photo:
  "reason (snd (extract_alarm_photo_hybrid cam parse_dt strftime target_dt password download_retries
                  bottom_white_threshold)) = ''no_photo''
   \<longleftrightarrow> HAS_DVRIP cam \<and> password \<noteq> []
       \<and> (\<exists>m. idea1_tier cam parse_dt strftime target_dt download_retries = Some (None, m))
       \<and> fst (motion_tier cam parse_dt strftime target_dt download_retries) = None"
proof -
  obtain mj mm where m: "motion_tier cam parse_dt strftime target_dt download_retries = (mj, mm)"
    by (cases "motion_tier cam parse_dt strftime target_dt download_retries")
  show ?thesis
  proof (cases "idea1_tier cam parse_dt strftime target_dt download_retries")
    case None
    then show ?thesis by (simp add: extract_alarm_photo_hybrid_def Let_def)
  next
    case (Some a)
    obtain ij im where "a = (ij, im)" by (cases a)
    with Some m show ?thesis
      by (cases ij; cases mj) (simp_all add: extract_alarm_photo_hybrid_def Let_def split: option.splits)
  qed
qed

lemma hybrid_no_image:
  assumes "fst (extract_alarm_photo_hybrid cam parse_dt strftime target_dt password download_retries
                  bottom_white_threshold) = None"
  shows "\<not> ok (snd (extract_alarm_photo_hybrid cam parse_dt strftime target_dt password
                  download_retries bottom_white_threshold))"
    and "\<not> HAS_DVRIP cam \<or> password = []
       \<or> idea1_tier cam parse_dt strftime target_dt download_retries = None
       \<or> ((\<exists>m. idea1_tier cam parse_dt strftime target_dt download_retries = Some (None, m))
           \<and> fst (motion_tier cam parse_dt strftime target_dt download_retries) = None)"
proof -
  obtain mj mm where m: "motion_tier cam parse_dt strftime target_dt download_retries = (mj, mm)"
    by (cases "motion_tier cam parse_dt strftime target_dt download_retries")
  show "\<not> ok (snd (extract_alarm_photo_hybrid cam parse_dt strftime target_dt password
                  download_retries bottom_white_threshold))"
    using assms m
    by (auto simp: extract_alarm_photo_hybrid_def Let_def split: option.splits if_splits prod.splits)
  show "\<not> HAS_DVRIP cam \<or> password = []
       \<or> idea1_tier cam parse_dt strftime target_dt download_retries = None
       \<or> ((\<exists>m. idea1_tier cam parse_dt strftime target_dt download_retries = Some (None, m))
           \<and> fst (motion_tier cam parse_dt strftime target_dt download_retries) = None)"
    using assms m
    by (auto simp: extract_alarm_photo_hybrid_def Let_def split: option.splits if_splits prod.splits)
qed


lemma tier_body_jpeg:
  assumes "tier_body cam parse_dt strftime session target_dt half_window event ftype sample
             score_mode download_retries = (Some jpeg, m)"
  shows "\<exists>begin end rows p raw res.
           tier_window strftime target_dt half_window = Inr (begin, end)
         \<and> opfilequery cam session begin end event ftype = Inr rows
         \<and> pick_closest_file parse_dt rows target_dt = Some p
         \<and> fst (download_with_retries parse_dt strftime (download_motion_file_h264 cam session)
                  (FileName p) (BeginTime p) (if EndTime p = [] then BeginTime p else EndTime p)
                  download_retries) = Inr raw
         \<and> extract_best_jpeg_from_motion_h264 cam raw sample score_mode = Inr res
         \<and> er_ok res \<and> er_jpeg_bytes res = Some jpeg \<and> jpeg \<noteq> []
         \<and> meta_bottom_white_ratio m = bottom_white_ratio cam jpeg"
  using assms
  unfolding tier_body_def Let_def meta_bottom_white_ratio_def
  by (simp split: sum.splits option.splits if_splits prod.splits) force+

text \<open>
  Claim C1. When the photo-marker tier yields a JPEG whose bottom-white ratio is at least
  the threshold and the motion tier yields no JPEG, the function returns the photo-marker
  JPEG with \<open>ok = True\<close>, \<open>reason = "ok_but_bottom_white"\<close> and \<open>chosen = "idea1"\<close>. The
  reason is \<open>"no_photo"\<close> exactly when both tiers ran and neither yielded a JPEG, and
  whenever no image is returned \<open>ok\<close> is false and no tier that ran yielded a JPEG.
\<close>

theorem hybrid_returns_corrupted_photo_marker:
  "(HAS_DVRIP cam \<and> password \<noteq> []
      \<and> idea1_tier cam parse_dt strftime target_dt download_retries = Some (Some jpeg, idea1_meta)
      \<and> meta_bottom_white_ratio idea1_meta = Some bw \<and> bottom_white_threshold \<le> bw
      \<and> fst (motion_tier cam parse_dt strftime target_dt download_retries) = None
    \<longrightarrow> extract_alarm_photo_hybrid cam parse_dt strftime target_dt password download_retries
           bottom_white_threshold
         = (Some jpeg,
            \<lparr>ok = True, reason = ''ok_but_bottom_white'', target = strftime target_dt,
             chosen = Some ''idea1'', idea1 = Some idea1_meta,
             motion = Some (snd (motion_tier cam parse_dt strftime target_dt download_retries))\<rparr>))
   \<and> (reason (snd (extract_alarm_photo_hybrid cam parse_dt strftime target_dt password
                     download_retries bottom_white_threshold)) = ''no_photo''
        \<longleftrightarrow> HAS_DVRIP cam \<and> password \<noteq> []
            \<and> (\<exists>m. idea1_tier cam parse_dt strftime target_dt download_retries = Some (None, m))
            \<and> fst (motion_tier cam parse_dt strftime target_dt download_retries) = None)
   \<and> (fst (extract_alarm_photo_hybrid cam parse_dt strftime target_dt password download_retries
              bottom_white_threshold) = None
        \<longrightarrow> \<not> ok (snd (extract_alarm_photo_hybrid cam parse_dt strftime target_dt password
                         download_retries bottom_white_threshold))
            \<and> (\<not> HAS_DVRIP cam \<or> password = []
               \<or> idea1_tier cam parse_dt strftime target_dt download_retries = None
               \<or> ((\<exists>m. idea1_tier cam parse_dt strftime target_dt download_retries = Some (None, m))
                   \<and> fst (motion_tier cam parse_dt strftime target_dt download_retries) = None)))"
  using hybrid_last_resort [of cam password parse_dt strftime target_dt download_retries jpeg
      idea1_meta bw bottom_white_threshold]
    hybrid_no_photo [of cam parse_dt strftime target_dt password download_retries bottom_white_threshold]
    hybrid_no_image [of cam parse_dt strftime target_dt password download_retries bottom_white_threshold]
  by blast


lemma download_first_attempt:
  assumes "bumped_end_time parse_dt strftime begin_time end_time = Inr et"
    and "dl filename (strip begin_time) et 1 = Inr p"
  shows "download_with_retries parse_dt strftime dl filename begin_time
           end_time retries = (Inr p, [Download 1])"
proof -
  have "attempt_loop (dl filename (strip begin_time) et) (nat (max 1 retries)) 1 None []
        = (Inr p, [Download 1])"
    using assms(2) by (subst attempt_loop.simps) simp
  with assms(1) show ?thesis by (simp add: download_with_retries_def Let_def)
qed

lemma tier_body_success:
  assumes "tier_window strftime target_dt half_window = Inr (begin, end)"
    and "opfilequery cam session begin end event ftype = Inr rows"
    and "pick_closest_file parse_dt rows target_dt = Some p"
    and "fst (download_with_retries parse_dt strftime (download_motion_file_h264 cam session)
                (FileName p) (BeginTime p) (if EndTime p = [] then BeginTime p else EndTime p)
                download_retries) = Inr raw"
    and "extract_best_jpeg_from_motion_h264 cam raw sample score_mode = Inr res"
    and "er_ok res" and "er_jpeg_bytes res = Some jpeg" and "jpeg \<noteq> []"
  shows "\<exists>m. tier_body cam parse_dt strftime session target_dt half_window event ftype sample
               score_mode download_retries = (Some jpeg, m)
             \<and> meta_bottom_white_ratio m = bottom_white_ratio cam jpeg"
  using assms by (simp add: tier_body_def Let_def meta_bottom_white_ratio_def)

lemma tier_body_no_rows:
  assumes "tier_window strftime target_dt half_window = Inr (begin, end)"
    and "opfilequery cam session begin end event ftype = Inr []"
  shows "fst (tier_body cam parse_dt strftime session target_dt half_window event ftype sample
               score_mode download_retries) = None"
  using assms by (simp add: tier_body_def Let_def pick_closest_file_def)

text \<open>
  A camera with one photo marker around the target, whose download decodes to a frame of
  bottom-white ratio 0.40 (threshold 0.25), and with no motion clip nearby.
\<close>

theorem hybrid_returns_corrupted_photo_marker_witness:
  "map_prod id (\<lambda>m. (ok m, reason m, chosen m))
     (extract_alarm_photo_hybrid
        \<lparr>HAS_DVRIP = True,
         login = (\<lambda>session. Inr True),
         opfilequery = (\<lambda>session begin end event ftype.
            if ftype = ''jpg''
            then Inr [\<lparr>FileName = ''/idea1/2024-01-01/001/10.00.09-10.00.12[M][@0][0].jpg'',
                       BeginTime = ''2024-01-01 10:00:09'', EndTime = ''2024-01-01 10:00:12''\<rparr>]
            else Inr []),
         download_motion_file_h264 = (\<lambda>session filename bt et attempt.
            Inr [0,0,1,0xFC, 0,0,0,0, 0,0,0,0, 5,0,0,0, 0,0,0,1,0x67]),
         cv2_select = (\<lambda>media sample score_mode.
            Inr \<lparr>er_ok = True, er_reason = ''ok'', er_jpeg_bytes = Some [0xFF, 0xD8, 0xFF, 0xD9],
                 er_chosen_frame_index = Some 3\<rparr>),
         bottom_white_ratio = (\<lambda>jpeg. Some 0.40),
         big_endian = False\<rparr>
        strptime_canonical strftime_canonical 63839786410 ''secret'' 2 0.25)
   = (Some [0xFF, 0xD8, 0xFF, 0xD9], True, ''ok_but_bottom_white'', Some ''idea1'')"
proof -
  let ?row = "\<lparr>FileName = ''/idea1/2024-01-01/001/10.00.09-10.00.12[M][@0][0].jpg'',
                BeginTime = ''2024-01-01 10:00:09'', EndTime = ''2024-01-01 10:00:12''\<rparr>"
  let ?raw = "[0,0,1,0xFC, 0,0,0,0, 0,0,0,0, 5,0,0,0, 0,0,0,1,0x67] :: bytes"
  let ?jpeg = "[0xFF, 0xD8, 0xFF, 0xD9] :: bytes"
  let ?cam = "\<lparr>HAS_DVRIP = True,
         login = (\<lambda>session. Inr True),
         opfilequery = (\<lambda>session begin end event ftype.
            if ftype = ''jpg'' then Inr [?row] else Inr []),
         download_motion_file_h264 = (\<lambda>session filename bt et attempt. Inr ?raw),
         cv2_select = (\<lambda>media sample score_mode.
            Inr \<lparr>er_ok = True, er_reason = ''ok'', er_jpeg_bytes = Some ?jpeg,
                 er_chosen_frame_index = Some 3\<rparr>),
         bottom_white_ratio = (\<lambda>jpeg. Some 0.40),
         big_endian = False\<rparr>"
  have w: "tier_window strftime_canonical 63839786410 20
             = Inr (strftime_canonical 63839786390, strftime_canonical 63839786430)"
    by (simp add: tier_window_def add_seconds_def datetime_min_def datetime_max_def)
  have q: "opfilequery ?cam 1 (strftime_canonical 63839786390)
             (strftime_canonical 63839786430) ''*'' ''jpg'' = Inr [?row]"
    by simp
  have pick: "pick_closest_file strptime_canonical [?row] 63839786410 = Some ?row"
    by (simp add: pick_closest_file_def pick_step_def row_key_def Let_def
        strptime_100009 strptime_100012)
  have dl: "fst (download_with_retries strptime_canonical strftime_canonical
               (download_motion_file_h264 ?cam 1) (FileName ?row) (BeginTime ?row)
               (if EndTime ?row = [] then BeginTime ?row else EndTime ?row) 2) = Inr ?raw"
    using bumped_end_time_given [of "''2024-01-01 10:00:12''" "''2024-01-01 10:00:09''"]
    by (simp add: download_first_attempt strip_timestamp)
  have ex: "extract_best_jpeg_from_motion_h264 ?cam ?raw
              [0, 1, 2, 3, 5, 8, 10, 12, 14, 16, 18, 20, 24, 28, 32] ''content''
         = Inr \<lparr>er_ok = True, er_reason = ''ok'', er_jpeg_bytes = Some ?jpeg,
                er_chosen_frame_index = Some 3\<rparr>"
    by (simp add: extract_best_jpeg_from_motion_h264_def demux_video_block)
  have "\<exists>m. tier_body ?cam strptime_canonical strftime_canonical 1 63839786410 20 ''*'' ''jpg''
               [0, 1, 2, 3, 5, 8, 10, 12, 14, 16, 18, 20, 24, 28, 32] ''content'' 2 = (Some ?jpeg, m)
             \<and> meta_bottom_white_ratio m = bottom_white_ratio ?cam ?jpeg"
    by (rule tier_body_success [OF w q pick dl ex]) simp_all
  then obtain m where tb: "tier_body ?cam strptime_canonical strftime_canonical 1 63839786410 20
               ''*'' ''jpg'' [0, 1, 2, 3, 5, 8, 10, 12, 14, 16, 18, 20, 24, 28, 32] ''content'' 2
               = (Some ?jpeg, m)"
    and bw: "meta_bottom_white_ratio m = bottom_white_ratio ?cam ?jpeg"
    by blast
  have m1: "idea1_tier ?cam strptime_canonical strftime_canonical 63839786410 2
                 = Some (Some ?jpeg, m)"
    unfolding idea1_tier_def using tb by simp
  have m2: "meta_bottom_white_ratio m = Some 0.40"
    using bw by simp
  have w2: "tier_window strftime_canonical 63839786410 180
             = Inr (strftime_canonical 63839786230, strftime_canonical 63839786590)"
    by (simp add: tier_window_def add_seconds_def datetime_min_def datetime_max_def)
  have q2: "opfilequery ?cam 2 (strftime_canonical 63839786230)
             (strftime_canonical 63839786590) ''M'' ''h264'' = Inr []"
    by simp
  have t2: "fst (motion_tier ?cam strptime_canonical strftime_canonical 63839786410 2) = None"
    unfolding motion_tier_def using tier_body_no_rows [OF w2 q2] by simp
  have h: "HAS_DVRIP ?cam \<and> ''secret'' \<noteq> []
      \<and> idea1_tier ?cam strptime_canonical strftime_canonical 63839786410 2 = Some (Some ?jpeg, m)
      \<and> meta_bottom_white_ratio m = Some 0.40 \<and> (0.25 :: real) \<le> 0.40
      \<and> fst (motion_tier ?cam strptime_canonical strftime_canonical 63839786410 2) = None"
    using m1 m2 t2 by simp
  from hybrid_returns_corrupted_photo_marker [of ?cam "''secret''" strptime_canonical
      strftime_canonical 63839786410 2 ?jpeg m "0.40" "0.25"] h
  have "extract_alarm_photo_hybrid ?cam strptime_canonical strftime_canonical 63839786410 ''secret'' 2 0.25
         = (Some ?jpeg,
            \<lparr>ok = True, reason = ''ok_but_bottom_white'', target = strftime_canonical 63839786410,
             chosen = Some ''idea1'', idea1 = Some m,
             motion = Some (snd (motion_tier ?cam strptime_canonical strftime_canonical 63839786410 2))\<rparr>)"
    by blast
  then show ?thesis by simp
qed


section \<open>Event index scanner: \<open>fetch_recent_alarm_markers\<close>\<close>

text \<open>
  A normalised row is the row with the two keys that \<open>normalize_rows\<close> adds: \<open>__dt\<close>, the
  parsed begin time, and \<open>__type\<close>.
\<close>

record nrow = row +
  dt :: datetime
  rtype :: string

text \<open>
  \<open>normalize_rows\<close> drops the rows whose begin time does not parse and sorts the others by
  \<open>__dt\<close> with \<open>reverse=True\<close>: a stable sort, rows of equal time keeping their order.
\<close>

definition normalize_rows :: "(string \<Rightarrow> datetime option) \<Rightarrow> row list \<Rightarrow> string \<Rightarrow> nrow list" where
  "normalize_rows parse_dt rows ftype =
     sort_key (\<lambda>x. - dt x)
       (List.map_filter
          (\<lambda>r. case parse_dt (BeginTime r) of
                 None \<Rightarrow> None
               | Some bt \<Rightarrow> Some \<lparr>FileName = FileName r, BeginTime = BeginTime r,
                                  EndTime = EndTime r, dt = bt, rtype = ftype\<rparr>)
          rows)"

text \<open>The key of the \<open>seen\<close> set: \<open>f"{FileName}|{BeginTime}"\<close>.\<close>

definition row_id :: "nrow \<Rightarrow> string" where
  "row_id r = FileName r @ ''|'' @ BeginTime r"

text \<open>The loop \<open>for r in norm\<close> on \<open>collected\<close> and \<open>seen\<close>.\<close>

fun merge_rows :: "nrow list \<Rightarrow> nrow list \<times> string set \<Rightarrow> nrow list \<times> string set" where
  "merge_rows [] (collected, seen) = (collected, seen)"
| "merge_rows (r # rs) (collected, seen) =
     (if row_id r \<in> seen then merge_rows rs (collected, seen)
      else merge_rows rs (collected @ [r], insert (row_id r) seen))"

text \<open>
  A \<open>timedelta\<close> is a number of seconds here; its days must not exceed 999999999 in
  magnitude, and building a larger one raises \<open>OverflowError\<close>.
\<close>

definition make_timedelta :: "int \<Rightarrow> exn + int" where
  "make_timedelta seconds =
     (if - 999999999 \<le> seconds div 86400 \<and> seconds div 86400 \<le> 999999999 then Inr seconds
      else Inl (OverflowError ''days; must have magnitude <= 999999999''))"

text \<open>An entry of \<open>meta["chunks"]\<close>, and the variables of the \<open>while\<close> loop.\<close>

record chunk_meta =
  cm_begin :: string
  cm_end :: string
  cm_raw :: nat
  cm_parsed :: nat
  cm_chunk_sec :: int

record scan_state =
  cursor_end :: datetime
  chunk :: int
  collected :: "nrow list"
  seen :: "string set"
  chunks :: "chunk_meta list"

text \<open>
  The begin of the window of an iteration: \<open>cursor_end - chunk\<close>, which may raise, clamped
  at \<open>oldest_allowed\<close>.
\<close>

definition window_begin :: "datetime \<Rightarrow> scan_state \<Rightarrow> exn + datetime" where
  "window_begin oldest_allowed st =
     (case add_seconds (cursor_end st) (- chunk st) of
        Inl e \<Rightarrow> Inl e
      | Inr begin_dt \<Rightarrow> Inr (if begin_dt < oldest_allowed then oldest_allowed else begin_dt))"

text \<open>
  The loop condition, and the body of the loop from the line after the query on, for the
  window begin \<open>begin_dt\<close> and the rows \<open>rows\<close> that the query returned.
\<close>

definition scan_continues :: "datetime \<Rightarrow> int \<Rightarrow> scan_state \<Rightarrow> bool" where
  "scan_continues oldest_allowed want st =
     (cursor_end st > oldest_allowed \<and> int (length (collected st)) < want)"

definition scan_iteration ::
  "(string \<Rightarrow> datetime option) \<Rightarrow> (datetime \<Rightarrow> string) \<Rightarrow> int \<Rightarrow> int \<Rightarrow> int
     \<Rightarrow> scan_state \<Rightarrow> datetime \<Rightarrow> row list \<Rightarrow> exn + scan_state" where
  "scan_iteration parse_dt strftime want min_chunk cap_guard st begin_dt rows =
     (let norm = normalize_rows parse_dt rows ''jpg'';
          st = st\<lparr>chunks := chunks st @
                 [\<lparr>cm_begin = strftime begin_dt, cm_end = strftime (cursor_end st),
                   cm_raw = length rows, cm_parsed = length norm, cm_chunk_sec = chunk st\<rparr>]\<rparr>
      in if int (length rows) \<ge> cap_guard \<and> chunk st > min_chunk then
           Inr (st\<lparr>chunk := max min_chunk (chunk st div 2)\<rparr>)
         else
           let (c, s) = merge_rows norm (collected st, seen st);
               st = st\<lparr>collected := c, seen := s, cursor_end := begin_dt\<rparr>
           in if int (length rows) < max 1 (want div 3) then
                (case make_timedelta (chunk st * 2) of
                   Inl e \<Rightarrow> Inl e
                 | Inr doubled \<Rightarrow> Inr (st\<lparr>chunk := min (4 * 3600) doubled\<rparr>))
              else Inr st)"

text \<open>
  The \<open>while\<close> loop. \<open>query n begin end\<close> is what \<open>opfilequery\<close> gives at the call number
  \<open>n\<close> of the run (counted from 0, one entry of \<open>meta["chunks"]\<close> per call) for the window
  \<open>[begin, end]\<close>: rows, or an exception, which leaves the function as every exception of
  the loop does. The loop ends for the states the function starts it in (shown below), not
  for every state, so its result is an option.
\<close>

partial_function (option) scan_loop ::
  "(nat \<Rightarrow> string \<Rightarrow> string \<Rightarrow> exn + row list) \<Rightarrow> (string \<Rightarrow> datetime option) \<Rightarrow> (datetime \<Rightarrow> string)
     \<Rightarrow> datetime \<Rightarrow> int \<Rightarrow> int \<Rightarrow> int \<Rightarrow> scan_state \<Rightarrow> (exn + scan_state) option" where
  "scan_loop query parse_dt strftime oldest_allowed want min_chunk cap_guard st =
     (if scan_continues oldest_allowed want st then
        (case window_begin oldest_allowed st of
           Inl e \<Rightarrow> Some (Inl e)
         | Inr begin_dt \<Rightarrow>
             (case query (length (chunks st)) (strftime begin_dt) (strftime (cursor_end st)) of
                Inl e \<Rightarrow> Some (Inl e)
              | Inr rows \<Rightarrow>
                  (case scan_iteration parse_dt strftime want min_chunk cap_guard st begin_dt rows of
                     Inl e \<Rightarrow> Some (Inl e)
                   | Inr st' \<Rightarrow>
                       scan_loop query parse_dt strftime oldest_allowed want min_chunk cap_guard st')))
      else Some (Inr st))"

text \<open>Python's \<open>xs[:n]\<close>, also for a negative \<open>n\<close>.\<close>

definition py_prefix :: "'a list \<Rightarrow> int \<Rightarrow> 'a list" where
  "py_prefix xs n = (if 0 \<le> n then take (nat n) xs else take (length xs - nat (- n)) xs)"

record scan_meta =
  sm_ok :: bool
  sm_reason :: string
  sm_chunks :: "chunk_meta list"
  sm_count :: "nat option"
  sm_max_time :: "string option"

text \<open>
  The lines of the \<open>try\<close> block above the loop: the four values the loop starts from, each
  of which may raise \<open>OverflowError\<close>.
\<close>

definition scan_setup ::
  "datetime \<Rightarrow> int \<Rightarrow> int \<Rightarrow> int \<Rightarrow> exn + (datetime \<times> int \<times> int)" where
  "scan_setup end_dt max_lookback_hours initial_chunk_minutes min_chunk_seconds =
     (case make_timedelta (3600 * max 1 max_lookback_hours) of
        Inl e \<Rightarrow> Inl e
      | Inr max_lookback \<Rightarrow>
          (case add_seconds end_dt (- max_lookback) of
             Inl e \<Rightarrow> Inl e
           | Inr oldest_allowed \<Rightarrow>
               (case make_timedelta (60 * max 1 initial_chunk_minutes) of
                  Inl e \<Rightarrow> Inl e
                | Inr initial_chunk \<Rightarrow>
                    (case make_timedelta (max 1 min_chunk_seconds) of
                       Inl e \<Rightarrow> Inl e
                     | Inr min_chunk \<Rightarrow> Inr (oldest_allowed, initial_chunk, min_chunk)))))"

text \<open>
  The function: \<open>has_dvrip\<close> is the import guard, \<open>cam_login\<close> the construction of the
  \<open>DVRIPCam\<close> and its \<open>login()\<close>, which may raise. The result is the pair of the rows and
  \<open>meta\<close>, or the exception raised.
\<close>

definition fetch_recent_alarm_markers ::
  "bool \<Rightarrow> (exn + bool) \<Rightarrow> (nat \<Rightarrow> string \<Rightarrow> string \<Rightarrow> exn + row list)
     \<Rightarrow> (string \<Rightarrow> datetime option) \<Rightarrow> (datetime \<Rightarrow> string)
     \<Rightarrow> string \<Rightarrow> datetime \<Rightarrow> int \<Rightarrow> int \<Rightarrow> int \<Rightarrow> int \<Rightarrow> int
     \<Rightarrow> (exn + nrow list \<times> scan_meta) option" where
  "fetch_recent_alarm_markers has_dvrip cam_login query parse_dt strftime password end_dt want
       max_lookback_hours initial_chunk_minutes min_chunk_seconds cap_guard =
     (let meta = \<lparr>sm_ok = False, sm_reason = ''init'', sm_chunks = [], sm_count = None,
                   sm_max_time = None\<rparr>
      in if \<not> has_dvrip then Some (Inr ([], meta\<lparr>sm_reason := ''python-dvr_not_available''\<rparr>))
         else if password = [] then Some (Inr ([], meta\<lparr>sm_reason := ''empty_password''\<rparr>))
         else
           case cam_login of
             Inl e \<Rightarrow> Some (Inl e)
           | Inr logged_in \<Rightarrow>
               if \<not> logged_in then Some (Inr ([], meta\<lparr>sm_reason := ''dvrip_login_failed''\<rparr>))
               else
                 (case scan_setup end_dt max_lookback_hours initial_chunk_minutes
                         min_chunk_seconds of
                    Inl e \<Rightarrow> Some (Inl e)
                  | Inr (oldest_allowed, initial_chunk, min_chunk) \<Rightarrow>
                      (case scan_loop query parse_dt strftime oldest_allowed want min_chunk cap_guard
                              \<lparr>cursor_end = end_dt, chunk = initial_chunk, collected = [], seen = {},
                               chunks = []\<rparr> of
                         None \<Rightarrow> None
                       | Some (Inl e) \<Rightarrow> Some (Inl e)
                       | Some (Inr st) \<Rightarrow>
                           let sorted_rows = sort_key (\<lambda>x. - dt x) (collected st)
                           in Some (Inr (py_prefix sorted_rows want,
                                         \<lparr>sm_ok = True, sm_reason = ''ok'', sm_chunks = chunks st,
                                          sm_count = Some (length sorted_rows),
                                          sm_max_time = (case sorted_rows of
                                                           [] \<Rightarrow> None
                                                         | x # _ \<Rightarrow> Some (strftime (dt x)))\<rparr>)))))"

subsection \<open>The loop ends\<close>

lemma window_begin_Inr:
  assumes "window_begin oldest_allowed st = Inr b"
  shows "b = (if cursor_end st - chunk st < oldest_allowed then oldest_allowed
              else cursor_end st - chunk st)"
  using assms by (auto simp: window_begin_def add_seconds_def split: if_splits)

lemma scan_iteration_shrink:
  assumes "int (length rows) \<ge> cap_guard" and "chunk st > min_chunk"
  shows "scan_iteration parse_dt strftime want min_chunk cap_guard st begin_dt rows
         = Inr (st\<lparr>chunks := chunks st @
                 [\<lparr>cm_begin = strftime begin_dt, cm_end = strftime (cursor_end st),
                   cm_raw = length rows,
                   cm_parsed = length (normalize_rows parse_dt rows ''jpg''),
                   cm_chunk_sec = chunk st\<rparr>],
               chunk := max min_chunk (chunk st div 2)\<rparr>)"
  using assms by (simp add: scan_iteration_def Let_def)

lemma scan_iteration_consume:
  assumes "\<not> (int (length rows) \<ge> cap_guard \<and> chunk st > min_chunk)"
    and "scan_iteration parse_dt strftime want min_chunk cap_guard st begin_dt rows = Inr st'"
  shows "chunks st' = chunks st @
                 [\<lparr>cm_begin = strftime begin_dt, cm_end = strftime (cursor_end st),
                   cm_raw = length rows,
                   cm_parsed = length (normalize_rows parse_dt rows ''jpg''),
                   cm_chunk_sec = chunk st\<rparr>]"
    and "collected st' = fst (merge_rows (normalize_rows parse_dt rows ''jpg'') (collected st, seen st))"
    and "seen st' = snd (merge_rows (normalize_rows parse_dt rows ''jpg'') (collected st, seen st))"
    and "cursor_end st' = begin_dt"
    and "chunk st' = chunk st \<or> chunk st' = min (4 * 3600) (chunk st * 2)"
proof -
  obtain c s where m: "merge_rows (normalize_rows parse_dt rows ''jpg'') (collected st, seen st) = (c, s)"
    by (cases "merge_rows (normalize_rows parse_dt rows ''jpg'') (collected st, seen st)")
  let ?st1 = "st\<lparr>chunks := chunks st @
                 [\<lparr>cm_begin = strftime begin_dt, cm_end = strftime (cursor_end st),
                   cm_raw = length rows,
                   cm_parsed = length (normalize_rows parse_dt rows ''jpg''),
                   cm_chunk_sec = chunk st\<rparr>],
               collected := c, seen := s, cursor_end := begin_dt\<rparr>"
  from assms m have "st' = ?st1 \<or> st' = ?st1\<lparr>chunk := min (4 * 3600) (chunk st * 2)\<rparr>"
    by (simp add: scan_iteration_def Let_def make_timedelta_def split: if_splits)
  then show "chunks st' = chunks st @
                 [\<lparr>cm_begin = strftime begin_dt, cm_end = strftime (cursor_end st),
                   cm_raw = length rows,
                   cm_parsed = length (normalize_rows parse_dt rows ''jpg''),
                   cm_chunk_sec = chunk st\<rparr>]"
    and "collected st' = fst (merge_rows (normalize_rows parse_dt rows ''jpg'') (collected st, seen st))"
    and "seen st' = snd (merge_rows (normalize_rows parse_dt rows ''jpg'') (collected st, seen st))"
    and "cursor_end st' = begin_dt"
    and "chunk st' = chunk st \<or> chunk st' = min (4 * 3600) (chunk st * 2)"
    using m by auto
qed

definition scan_order :: "datetime \<Rightarrow> (scan_state \<times> scan_state) set" where
  "scan_order oldest_allowed =
     inv_image (less_than <*lex*> less_than)
       (\<lambda>st. (nat (cursor_end st - oldest_allowed), nat (chunk st)))"

lemma wf_scan_order: "wf (scan_order oldest_allowed)"
  unfolding scan_order_def by (intro wf_inv_image wf_lex_prod wf_less_than)

lemma scan_iteration_decreases:
  assumes "scan_continues oldest_allowed want st" and "1 \<le> chunk st" and "1 \<le> min_chunk"
    and "window_begin oldest_allowed st = Inr b"
    and "scan_iteration parse_dt strftime want min_chunk cap_guard st b rows = Inr st'"
  shows "(st', st) \<in> scan_order oldest_allowed" and "1 \<le> chunk st'"
proof -
  from assms(1) have gt: "cursor_end st > oldest_allowed"
    by (simp add: scan_continues_def)
  from window_begin_Inr [OF assms(4)] gt assms(2)
  have b: "b < cursor_end st" "oldest_allowed \<le> b"
    by (auto split: if_splits)
  show "(st', st) \<in> scan_order oldest_allowed"
  proof (cases "int (length rows) \<ge> cap_guard \<and> chunk st > min_chunk")
    case True
    with assms(5) have "chunk st' = max min_chunk (chunk st div 2)" "cursor_end st' = cursor_end st"
      by (auto simp: scan_iteration_shrink)
    moreover have "max min_chunk (chunk st div 2) < chunk st"
      using True assms(2) by auto
    ultimately show ?thesis using assms(2,3)
      by (simp add: scan_order_def)
  next
    case False
    from scan_iteration_consume(4) [OF False assms(5)] have "cursor_end st' = b" .
    with b show ?thesis
      by (simp add: scan_order_def)
  qed
  show "1 \<le> chunk st'"
  proof (cases "int (length rows) \<ge> cap_guard \<and> chunk st > min_chunk")
    case True
    with assms(5) have "chunk st' = max min_chunk (chunk st div 2)"
      by (auto simp: scan_iteration_shrink)
    with assms(3) show ?thesis by simp
  next
    case False
    from scan_iteration_consume(5) [OF False assms(5)] assms(2) show ?thesis
      by auto
  qed
qed

text \<open>
  A rule for the whole loop: started with a positive window width and a positive minimum
  width it returns, and what holds of a state and its result is shown along the
  iterations.
\<close>

lemma scan_loop_rule:
  assumes "1 \<le> chunk st" and "1 \<le> min_chunk"
    and stop: "\<And>st. \<not> scan_continues oldest_allowed want st \<Longrightarrow> P st (Inr st)"
    and fail: "\<And>st e. scan_continues oldest_allowed want st \<Longrightarrow> P st (Inl e)"
    and step: "\<And>st b rows st' r. scan_continues oldest_allowed want st \<Longrightarrow> 1 \<le> chunk st \<Longrightarrow>
             window_begin oldest_allowed st = Inr b \<Longrightarrow>
             query (length (chunks st)) (strftime b) (strftime (cursor_end st)) = Inr rows \<Longrightarrow>
             scan_iteration parse_dt strftime want min_chunk cap_guard st b rows = Inr st' \<Longrightarrow>
             P st' r \<Longrightarrow> P st r"
  shows "\<exists>r. scan_loop query parse_dt strftime oldest_allowed want min_chunk cap_guard st = Some r
             \<and> P st r"
  using assms(1)
proof (induction st rule: wf_induct_rule [OF wf_scan_order [of oldest_allowed]])
  case (1 st)
  show ?case
  proof (cases "scan_continues oldest_allowed want st")
    case False
    then show ?thesis
      by (subst scan_loop.simps) (simp add: stop)
  next
    case True
    show ?thesis
    proof (cases "window_begin oldest_allowed st")
      case (Inl e)
      with True show ?thesis
        by (subst scan_loop.simps) (simp add: fail)
    next
      case b: (Inr b)
      show ?thesis
      proof (cases "query (length (chunks st)) (strftime b) (strftime (cursor_end st))")
        case (Inl e)
        with True b show ?thesis
          by (subst scan_loop.simps) (simp add: fail)
      next
        case q: (Inr rows)
        show ?thesis
        proof (cases "scan_iteration parse_dt strftime want min_chunk cap_guard st b rows")
          case (Inl e)
          with True b q show ?thesis
            by (subst scan_loop.simps) (simp add: fail)
        next
          case i: (Inr st')
          from scan_iteration_decreases [OF True "1.prems" assms(2) b i]
          have "(st', st) \<in> scan_order oldest_allowed" and "1 \<le> chunk st'"
            by blast+
          from "1.IH" [OF this] obtain r where
            r: "scan_loop query parse_dt strftime oldest_allowed want min_chunk cap_guard st' = Some r"
              "P st' r"
            by blast
          from step [OF True "1.prems" b q i r(2)] r(1) True b q i show ?thesis
            by (subst scan_loop.simps) simp
        qed
      qed
    qed
  qed
qed

subsection \<open>Deduplication, order and length of the result\<close>

definition seen_inv :: "scan_state \<Rightarrow> bool" where
  "seen_inv st = (seen st = row_id ` set (collected st) \<and> distinct (map row_id (collected st)))"

lemma merge_rows_inv:
  assumes "s = row_id ` set c" and "distinct (map row_id c)"
  shows "snd (merge_rows rs (c, s)) = row_id ` set (fst (merge_rows rs (c, s)))
         \<and> distinct (map row_id (fst (merge_rows rs (c, s))))"
  using assms
proof (induction rs arbitrary: c s)
  case Nil
  then show ?case by simp
next
  case (Cons r rs)
  show ?case
  proof (cases "row_id r \<in> s")
    case True
    with Cons.IH [OF Cons.prems] show ?thesis by simp
  next
    case False
    have "insert (row_id r) s = row_id ` set (c @ [r])"
      using Cons.prems(1) by simp
    moreover have "distinct (map row_id (c @ [r]))"
      using Cons.prems False by simp
    ultimately show ?thesis
      using Cons.IH [of "insert (row_id r) s" "c @ [r]"] False by simp
  qed
qed

lemma scan_iteration_seen_inv:
  assumes "seen_inv st"
    and "scan_iteration parse_dt strftime want min_chunk cap_guard st b rows = Inr st'"
  shows "seen_inv st'"
proof (cases "int (length rows) \<ge> cap_guard \<and> chunk st > min_chunk")
  case True
  with assms show ?thesis by (auto simp: scan_iteration_shrink seen_inv_def)
next
  case False
  from scan_iteration_consume(2,3) [OF False assms(2)]
    assms(1) merge_rows_inv [of "seen st" "collected st" "normalize_rows parse_dt rows ''jpg''"]
  show ?thesis by (simp add: seen_inv_def)
qed

text \<open>Every collected row carries the parsed begin time in \<open>__dt\<close>.\<close>

definition parsed_inv :: "(string \<Rightarrow> datetime option) \<Rightarrow> scan_state \<Rightarrow> bool" where
  "parsed_inv parse_dt st = (\<forall>r \<in> set (collected st). parse_dt (BeginTime r) = Some (dt r))"

lemma map_filter_mem:
  "y \<in> set (List.map_filter f xs) \<Longrightarrow> \<exists>x \<in> set xs. f x = Some y"
  by (induction xs) (auto simp: List.map_filter_simps split: option.splits)

lemma normalize_rows_parsed:
  assumes "r \<in> set (normalize_rows parse_dt rows ftype)"
  shows "parse_dt (BeginTime r) = Some (dt r)"
proof -
  from assms have "r \<in> set (List.map_filter
          (\<lambda>r. case parse_dt (BeginTime r) of
                 None \<Rightarrow> None
               | Some bt \<Rightarrow> Some \<lparr>FileName = FileName r, BeginTime = BeginTime r,
                                  EndTime = EndTime r, dt = bt, rtype = ftype\<rparr>)
          rows)"
    by (simp add: normalize_rows_def)
  from map_filter_mem [OF this] obtain x :: row where
    x: "(case parse_dt (BeginTime x) of
                 None \<Rightarrow> None
               | Some bt \<Rightarrow> Some \<lparr>FileName = FileName x, BeginTime = BeginTime x,
                                  EndTime = EndTime x, dt = bt, rtype = ftype\<rparr>) = Some r"
    by blast
  show ?thesis
  proof (cases "parse_dt (BeginTime x)")
    case None
    with x show ?thesis by simp
  next
    case (Some bt)
    with x have "r = \<lparr>FileName = FileName x, BeginTime = BeginTime x,
                                  EndTime = EndTime x, dt = bt, rtype = ftype\<rparr>"
      by simp
    with Some show ?thesis by simp
  qed
qed

lemma merge_rows_subset:
  "set (fst (merge_rows rs (c, s))) \<subseteq> set c \<union> set rs"
proof (induction rs arbitrary: c s)
  case Nil
  show ?case by simp
next
  case (Cons r rs)
  show ?case
  proof (cases "row_id r \<in> s")
    case True
    with Cons [of c s] show ?thesis by auto
  next
    case False
    with Cons [of "c @ [r]" "insert (row_id r) s"] show ?thesis by auto
  qed
qed

lemma scan_iteration_parsed_inv:
  assumes "parsed_inv parse_dt st"
    and "scan_iteration parse_dt strftime want min_chunk cap_guard st b rows = Inr st'"
  shows "parsed_inv parse_dt st'"
proof (cases "int (length rows) \<ge> cap_guard \<and> chunk st > min_chunk")
  case True
  with assms show ?thesis by (auto simp: scan_iteration_shrink parsed_inv_def)
next
  case False
  from scan_iteration_consume(2) [OF False assms(2)]
  have "collected st' = fst (merge_rows (normalize_rows parse_dt rows ''jpg'') (collected st, seen st))" .
  with merge_rows_subset [of "normalize_rows parse_dt rows ''jpg''" "collected st" "seen st"]
  have "set (collected st') \<subseteq> set (collected st) \<union> set (normalize_rows parse_dt rows ''jpg'')"
    by simp
  with assms(1) normalize_rows_parsed show ?thesis
    unfolding parsed_inv_def by blast
qed

lemma scan_loop_invariants:
  assumes "1 \<le> chunk st" and "1 \<le> min_chunk" and "seen_inv st" and "parsed_inv parse_dt st"
  shows "\<exists>r. scan_loop query parse_dt strftime oldest_allowed want min_chunk cap_guard st = Some r
             \<and> (\<forall>st'. r = Inr st' \<longrightarrow> seen_inv st' \<and> parsed_inv parse_dt st')"
proof -
  have "\<exists>r. scan_loop query parse_dt strftime oldest_allowed want min_chunk cap_guard st = Some r
             \<and> (seen_inv st \<and> parsed_inv parse_dt st
                  \<longrightarrow> (\<forall>st'. r = Inr st' \<longrightarrow> seen_inv st' \<and> parsed_inv parse_dt st'))"
  proof (rule scan_loop_rule [OF assms(1,2)])
    fix st :: scan_state
    show "seen_inv st \<and> parsed_inv parse_dt st
            \<longrightarrow> (\<forall>st'. Inr st = Inr st' \<longrightarrow> seen_inv st' \<and> parsed_inv parse_dt st')"
      by simp
  next
    fix st :: scan_state and e :: exn
    show "seen_inv st \<and> parsed_inv parse_dt st
            \<longrightarrow> (\<forall>st'. Inl e = Inr st' \<longrightarrow> seen_inv st' \<and> parsed_inv parse_dt st')"
      by simp
  next
    fix st st1 :: scan_state and b rows and r :: "exn + scan_state"
    assume i: "scan_iteration parse_dt strftime want min_chunk cap_guard st b rows = Inr st1"
      and ih: "seen_inv st1 \<and> parsed_inv parse_dt st1
            \<longrightarrow> (\<forall>st'. r = Inr st' \<longrightarrow> seen_inv st' \<and> parsed_inv parse_dt st')"
    show "seen_inv st \<and> parsed_inv parse_dt st
            \<longrightarrow> (\<forall>st'. r = Inr st' \<longrightarrow> seen_inv st' \<and> parsed_inv parse_dt st')"
    proof
      assume "seen_inv st \<and> parsed_inv parse_dt st"
      then have "seen_inv st1 \<and> parsed_inv parse_dt st1"
        using scan_iteration_seen_inv [OF _ i] scan_iteration_parsed_inv [OF _ i] by blast
      with ih show "\<forall>st'. r = Inr st' \<longrightarrow> seen_inv st' \<and> parsed_inv parse_dt st'"
        by blast
    qed
  qed
  with assms(3,4) show ?thesis by blast
qed

lemma distinct_map_comp:
  assumes "distinct (map (\<lambda>x. g (h x)) xs)"
  shows "distinct (map h xs)"
  using assms by (induction xs) auto

lemma distinct_ids_pairs:
  assumes "distinct (map row_id xs)"
  shows "distinct (map (\<lambda>r. (FileName r, BeginTime r)) xs)"
proof (rule distinct_map_comp [where g = "\<lambda>p. fst p @ ''|'' @ snd p"])
  from assms show "distinct (map (\<lambda>x. fst (FileName x, BeginTime x) @ ''|'' @ snd (FileName x, BeginTime x)) xs)"
    unfolding row_id_def fst_conv snd_conv .
qed

lemma distinct_sort_key_ids:
  assumes "distinct (map row_id xs)"
  shows "distinct (map row_id (sort_key k xs))"
  using assms by (simp add: distinct_map)

lemma sorted_desc_sort_key:
  "sorted_wrt (\<lambda>a b. dt b \<le> dt a) (sort_key (\<lambda>x. - dt x) (xs :: nrow list))"
proof -
  have "sorted (map (\<lambda>x. - dt x) (sort_key (\<lambda>x. - dt x) xs))"
    by (rule sorted_sort_key)
  then show ?thesis by (simp add: sorted_map)
qed

lemma py_prefix_take: "\<exists>n. py_prefix xs want = take n xs"
  by (auto simp: py_prefix_def)

lemma length_py_prefix:
  assumes "0 \<le> want \<or> xs = []"
  shows "int (length (py_prefix xs want)) \<le> max 0 want"
  using assms by (auto simp: py_prefix_def)

lemma scan_loop_stops_at_once:
  assumes "\<not> scan_continues oldest_allowed want st"
  shows "scan_loop query parse_dt strftime oldest_allowed want min_chunk cap_guard st = Some (Inr st)"
  using assms by (subst scan_loop.simps) simp

lemma make_timedelta_Inr:
  "make_timedelta seconds = Inr x \<Longrightarrow> x = seconds"
  by (simp add: make_timedelta_def split: if_splits)

lemma scan_setup_positive:
  assumes "scan_setup end_dt max_lookback_hours initial_chunk_minutes min_chunk_seconds
             = Inr (oldest_allowed, initial_chunk, min_chunk)"
  shows "1 \<le> initial_chunk" and "1 \<le> min_chunk"
proof -
  from assms have "make_timedelta (60 * max 1 initial_chunk_minutes) = Inr initial_chunk"
    and "make_timedelta (max 1 min_chunk_seconds) = Inr min_chunk"
    by (simp_all add: scan_setup_def split: sum.splits)
  then have "initial_chunk = 60 * max 1 initial_chunk_minutes"
    and "min_chunk = max 1 min_chunk_seconds"
    by (auto dest: make_timedelta_Inr)
  then show "1 \<le> initial_chunk" and "1 \<le> min_chunk"
    by simp_all
qed

lemma fetch_result_cases:
  assumes "fetch_recent_alarm_markers has_dvrip cam_login query parse_dt strftime password end_dt
             want max_lookback_hours initial_chunk_minutes min_chunk_seconds cap_guard
           = Some (Inr (rows, meta))"
  shows "(rows = [] \<and> sm_chunks meta = [])
       \<or> (\<exists>oldest_allowed initial_chunk min_chunk st.
             scan_setup end_dt max_lookback_hours initial_chunk_minutes min_chunk_seconds
               = Inr (oldest_allowed, initial_chunk, min_chunk)
           \<and> scan_loop query parse_dt strftime oldest_allowed want min_chunk cap_guard
                \<lparr>cursor_end = end_dt, chunk = initial_chunk, collected = [], seen = {},
                 chunks = []\<rparr> = Some (Inr st)
           \<and> rows = py_prefix (sort_key (\<lambda>x. - dt x) (collected st)) want
           \<and> sm_chunks meta = chunks st)"
proof (cases "has_dvrip \<and> password \<noteq> [] \<and> cam_login = Inr True")
  case False
  with assms show ?thesis
    by (auto simp: fetch_recent_alarm_markers_def Let_def split: if_splits sum.splits)
next
  case True
  show ?thesis
  proof (cases "scan_setup end_dt max_lookback_hours initial_chunk_minutes min_chunk_seconds")
    case (Inl e)
    with True assms show ?thesis
      by (simp add: fetch_recent_alarm_markers_def Let_def)
  next
    case (Inr t)
    obtain oldest_allowed initial_chunk min_chunk where t: "t = (oldest_allowed, initial_chunk, min_chunk)"
      by (cases t)
    show ?thesis
    proof (cases "scan_loop query parse_dt strftime oldest_allowed want min_chunk cap_guard
                \<lparr>cursor_end = end_dt, chunk = initial_chunk, collected = [], seen = {},
                 chunks = []\<rparr>")
      case None
      with True Inr t assms show ?thesis
        by (simp add: fetch_recent_alarm_markers_def Let_def)
    next
      case (Some r)
      show ?thesis
      proof (cases r)
        case (Inl e)
        with True Inr t Some assms show ?thesis
          by (simp add: fetch_recent_alarm_markers_def Let_def)
      next
        case st: (Inr st)
        with True Inr t Some assms
        have "rows = py_prefix (sort_key (\<lambda>x. - dt x) (collected st)) want"
          and "sm_chunks meta = chunks st"
          by (auto simp: fetch_recent_alarm_markers_def Let_def)
        with Inr t Some st show ?thesis by blast
      qed
    qed
  qed
qed

lemma fetch_returns:
  "\<exists>res. fetch_recent_alarm_markers has_dvrip cam_login query parse_dt strftime password end_dt
             want max_lookback_hours initial_chunk_minutes min_chunk_seconds cap_guard
           = Some res"
proof (cases "scan_setup end_dt max_lookback_hours initial_chunk_minutes min_chunk_seconds")
  case (Inl e)
  then show ?thesis
    by (simp add: fetch_recent_alarm_markers_def Let_def split: sum.splits)
next
  case (Inr t)
  obtain oldest_allowed initial_chunk min_chunk where t: "t = (oldest_allowed, initial_chunk, min_chunk)"
    by (cases t)
  from scan_setup_positive [OF Inr [unfolded t]]
  have pos: "1 \<le> chunk \<lparr>cursor_end = end_dt, chunk = initial_chunk, collected = [], seen = {},
                 chunks = []\<rparr>" "1 \<le> min_chunk"
    by simp_all
  have "\<exists>r. scan_loop query parse_dt strftime oldest_allowed want min_chunk cap_guard
                \<lparr>cursor_end = end_dt, chunk = initial_chunk, collected = [], seen = {},
                 chunks = []\<rparr> = Some r \<and> True"
    by (rule scan_loop_rule [OF pos]) simp_all
  then obtain r where "scan_loop query parse_dt strftime oldest_allowed want min_chunk cap_guard
                \<lparr>cursor_end = end_dt, chunk = initial_chunk, collected = [], seen = {},
                 chunks = []\<rparr> = Some r"
    by blast
  with Inr t show ?thesis
    by (simp add: fetch_recent_alarm_markers_def Let_def split: sum.splits)
qed

lemma fetch_rows_properties:
  assumes "fetch_recent_alarm_markers has_dvrip cam_login query parse_dt strftime password end_dt
             want max_lookback_hours initial_chunk_minutes min_chunk_seconds cap_guard
           = Some (Inr (rows, meta))"
  shows "distinct (map (\<lambda>r. (FileName r, BeginTime r)) rows)"
    and "\<forall>i j. i < j \<and> j < length rows \<longrightarrow>
           (\<exists>a b. parse_dt (BeginTime (rows ! i)) = Some a
                \<and> parse_dt (BeginTime (rows ! j)) = Some b \<and> b \<le> a)"
    and "int (length rows) \<le> max 0 want"
proof -
  from fetch_result_cases [OF assms]
  have "rows = [] \<or> (\<exists>oldest_allowed initial_chunk min_chunk st.
             scan_setup end_dt max_lookback_hours initial_chunk_minutes min_chunk_seconds
               = Inr (oldest_allowed, initial_chunk, min_chunk)
           \<and> scan_loop query parse_dt strftime oldest_allowed want min_chunk cap_guard
                \<lparr>cursor_end = end_dt, chunk = initial_chunk, collected = [], seen = {},
                 chunks = []\<rparr> = Some (Inr st)
           \<and> rows = py_prefix (sort_key (\<lambda>x. - dt x) (collected st)) want)"
    by blast
  then have "distinct (map (\<lambda>r. (FileName r, BeginTime r)) rows)
    \<and> (\<forall>i j. i < j \<and> j < length rows \<longrightarrow>
           (\<exists>a b. parse_dt (BeginTime (rows ! i)) = Some a
                \<and> parse_dt (BeginTime (rows ! j)) = Some b \<and> b \<le> a))
    \<and> int (length rows) \<le> max 0 want"
  proof
    assume "rows = []"
    then show ?thesis by simp
  next
    assume "\<exists>oldest_allowed initial_chunk min_chunk st.
             scan_setup end_dt max_lookback_hours initial_chunk_minutes min_chunk_seconds
               = Inr (oldest_allowed, initial_chunk, min_chunk)
           \<and> scan_loop query parse_dt strftime oldest_allowed want min_chunk cap_guard
                \<lparr>cursor_end = end_dt, chunk = initial_chunk, collected = [], seen = {},
                 chunks = []\<rparr> = Some (Inr st)
           \<and> rows = py_prefix (sort_key (\<lambda>x. - dt x) (collected st)) want"
    then obtain oldest_allowed initial_chunk min_chunk st where
      su: "scan_setup end_dt max_lookback_hours initial_chunk_minutes min_chunk_seconds
               = Inr (oldest_allowed, initial_chunk, min_chunk)"
      and loop: "scan_loop query parse_dt strftime oldest_allowed want min_chunk cap_guard
                \<lparr>cursor_end = end_dt, chunk = initial_chunk, collected = [], seen = {},
                 chunks = []\<rparr> = Some (Inr st)"
      and rows: "rows = py_prefix (sort_key (\<lambda>x. - dt x) (collected st)) want"
      by blast
    let ?st0 = "\<lparr>cursor_end = end_dt, chunk = initial_chunk, collected = [], seen = {},
                 chunks = []\<rparr>"
    let ?sorted = "sort_key (\<lambda>x. - dt x) (collected st)"
    from scan_setup_positive [OF su]
    have pos: "1 \<le> chunk ?st0" "1 \<le> min_chunk" by simp_all
    have "seen_inv ?st0" "parsed_inv parse_dt ?st0"
      by (simp_all add: seen_inv_def parsed_inv_def)
    from scan_loop_invariants [OF pos this, of query strftime oldest_allowed want cap_guard] loop
    have inv: "seen_inv st" "parsed_inv parse_dt st"
      by auto
    from py_prefix_take obtain n where n: "rows = take n ?sorted"
      unfolding rows by blast
    from inv(1) have "distinct (map row_id ?sorted)"
      by (simp add: seen_inv_def distinct_sort_key_ids)
    then have "distinct (map (\<lambda>r. (FileName r, BeginTime r)) ?sorted)"
      by (rule distinct_ids_pairs)
    then have d: "distinct (map (\<lambda>r. (FileName r, BeginTime r)) rows)"
      unfolding n take_map [symmetric] by (rule distinct_take)
    have "sorted_wrt (\<lambda>a b. dt b \<le> dt a) rows"
      unfolding n using sorted_desc_sort_key by (rule sorted_wrt_take)
    then have ord: "\<forall>i j. i < j \<and> j < length rows \<longrightarrow> dt (rows ! j) \<le> dt (rows ! i)"
      by (simp add: sorted_wrt_iff_nth_less)
    have "set rows \<subseteq> set (collected st)"
      unfolding n using set_take_subset [of n ?sorted] by simp
    with inv(2) have par: "\<forall>r \<in> set rows. parse_dt (BeginTime r) = Some (dt r)"
      by (auto simp: parsed_inv_def)
    have s: "\<forall>i j. i < j \<and> j < length rows \<longrightarrow>
           (\<exists>a b. parse_dt (BeginTime (rows ! i)) = Some a
                \<and> parse_dt (BeginTime (rows ! j)) = Some b \<and> b \<le> a)"
    proof (intro allI impI)
      fix i j assume ij: "i < j \<and> j < length rows"
      then have "rows ! i \<in> set rows" "rows ! j \<in> set rows" by simp_all
      with par have "parse_dt (BeginTime (rows ! i)) = Some (dt (rows ! i))"
        "parse_dt (BeginTime (rows ! j)) = Some (dt (rows ! j))" by blast+
      with ord ij show "\<exists>a b. parse_dt (BeginTime (rows ! i)) = Some a
                \<and> parse_dt (BeginTime (rows ! j)) = Some b \<and> b \<le> a"
        by blast
    qed
    have l: "int (length rows) \<le> max 0 want"
    proof (cases "0 \<le> want")
      case True
      then show ?thesis unfolding rows by (intro length_py_prefix) simp
    next
      case False
      then have "\<not> scan_continues oldest_allowed want ?st0"
        by (simp add: scan_continues_def)
      from scan_loop_stops_at_once [OF this, of query parse_dt strftime min_chunk cap_guard] loop
      have "st = ?st0" by simp
      then show ?thesis unfolding rows by (intro length_py_prefix) simp
    qed
    from d s l show ?thesis by blast
  qed
  then show "distinct (map (\<lambda>r. (FileName r, BeginTime r)) rows)"
    and "\<forall>i j. i < j \<and> j < length rows \<longrightarrow>
           (\<exists>a b. parse_dt (BeginTime (rows ! i)) = Some a
                \<and> parse_dt (BeginTime (rows ! j)) = Some b \<and> b \<le> a)"
    and "int (length rows) \<le> max 0 want"
    by blast+
qed

subsection \<open>A run with a saturated window and an overlap\<close>

lemma scan_loop_step:
  assumes "scan_continues oldest_allowed want st"
    and "window_begin oldest_allowed st = Inr b"
    and "query (length (chunks st)) (strftime b) (strftime (cursor_end st)) = Inr rows"
    and "scan_iteration parse_dt strftime want min_chunk cap_guard st b rows = Inr st'"
  shows "scan_loop query parse_dt strftime oldest_allowed want min_chunk cap_guard st
         = scan_loop query parse_dt strftime oldest_allowed want min_chunk cap_guard st'"
  using assms by (subst scan_loop.simps) simp

text \<open>
  Three markers, at 10:00:09, 09:52:00 and 09:51:00, and a camera that answers the first
  query (ten minutes back from 10:00:10) with all three, which is the cap of this run, the
  second (five minutes) with the first marker, and the third with the first two markers,
  the first of them for the second time.
\<close>

definition marker_a :: row where
  "marker_a = \<lparr>FileName = ''/idea1/2024-01-01/001/10.00.09-10.00.12[M][@0][0].jpg'',
                BeginTime = ''2024-01-01 10:00:09'', EndTime = ''2024-01-01 10:00:12''\<rparr>"

definition marker_b :: row where
  "marker_b = \<lparr>FileName = ''/idea1/2024-01-01/001/09.52.00-09.52.04[M][@0][0].jpg'',
                BeginTime = ''2024-01-01 09:52:00'', EndTime = ''2024-01-01 09:52:04''\<rparr>"

definition marker_c :: row where
  "marker_c = \<lparr>FileName = ''/idea1/2024-01-01/001/09.51.00-09.51.03[M][@0][0].jpg'',
                BeginTime = ''2024-01-01 09:51:00'', EndTime = ''2024-01-01 09:51:03''\<rparr>"

definition example_query :: "nat \<Rightarrow> string \<Rightarrow> string \<Rightarrow> exn + row list" where
  "example_query n begin end =
     (if n = 0 then Inr [marker_a, marker_b, marker_c]
      else if n = 1 then Inr [marker_a]
      else Inr [marker_a, marker_b])"

definition normalized :: "row \<Rightarrow> datetime \<Rightarrow> nrow" where
  "normalized r t = \<lparr>FileName = FileName r, BeginTime = BeginTime r, EndTime = EndTime r,
                     dt = t, rtype = ''jpg''\<rparr>"

lemma strptime_095200: "strptime_canonical ''2024-01-01 09:52:00'' = Some 63839785920"
  by (simp add: strptime_eval)

lemma strptime_095100: "strptime_canonical ''2024-01-01 09:51:00'' = Some 63839785860"
  by (simp add: strptime_eval)

lemma strftime_100010: "strftime_canonical 63839786410 = ''2024-01-01 10:00:10''"
  by (simp add: strftime_eval)

lemma strftime_095010: "strftime_canonical 63839785810 = ''2024-01-01 09:50:10''"
  by (simp add: strftime_eval)

lemma strftime_095510: "strftime_canonical 63839786110 = ''2024-01-01 09:55:10''"
  by (simp add: strftime_eval)

lemma strftime_100009: "strftime_canonical 63839786409 = ''2024-01-01 10:00:09''"
  by (simp add: strftime_eval)

lemma normalize_abc:
  "normalize_rows strptime_canonical [marker_a, marker_b, marker_c] ''jpg''
     = [normalized marker_a 63839786409, normalized marker_b 63839785920,
        normalized marker_c 63839785860]"
  by (simp add: normalize_rows_def List.map_filter_simps marker_a_def marker_b_def marker_c_def
      normalized_def strptime_100009 strptime_095200 strptime_095100)

lemma normalize_a:
  "normalize_rows strptime_canonical [marker_a] ''jpg'' = [normalized marker_a 63839786409]"
  by (simp add: normalize_rows_def List.map_filter_simps marker_a_def normalized_def
      strptime_100009)

lemma normalize_ab:
  "normalize_rows strptime_canonical [marker_a, marker_b] ''jpg''
     = [normalized marker_a 63839786409, normalized marker_b 63839785920]"
  by (simp add: normalize_rows_def List.map_filter_simps marker_a_def marker_b_def
      normalized_def strptime_100009 strptime_095200)

lemma example_setup:
  "scan_setup 63839786410 24 10 60 = Inr (63839700010, 600, 60)"
  by (simp add: scan_setup_def make_timedelta_def add_seconds_def datetime_min_def
      datetime_max_def)

definition example_chunks :: "chunk_meta list" where
  "example_chunks =
     [\<lparr>cm_begin = ''2024-01-01 09:50:10'', cm_end = ''2024-01-01 10:00:10'', cm_raw = 3,
       cm_parsed = 3, cm_chunk_sec = 600\<rparr>,
      \<lparr>cm_begin = ''2024-01-01 09:55:10'', cm_end = ''2024-01-01 10:00:10'', cm_raw = 1,
       cm_parsed = 1, cm_chunk_sec = 300\<rparr>,
      \<lparr>cm_begin = ''2024-01-01 09:50:10'', cm_end = ''2024-01-01 09:55:10'', cm_raw = 2,
       cm_parsed = 2, cm_chunk_sec = 300\<rparr>]"

lemma example_iteration_0:
  "scan_iteration strptime_canonical strftime_canonical 2 60 3
     \<lparr>cursor_end = 63839786410, chunk = 600, collected = [], seen = {}, chunks = []\<rparr>
     63839785810 [marker_a, marker_b, marker_c]
   = Inr \<lparr>cursor_end = 63839786410, chunk = 300, collected = [], seen = {},
          chunks = take 1 example_chunks\<rparr>"
  by (simp add: scan_iteration_def Let_def normalize_abc strftime_100010 strftime_095010
      example_chunks_def)

lemma example_iteration_1:
  "scan_iteration strptime_canonical strftime_canonical 2 60 3
     \<lparr>cursor_end = 63839786410, chunk = 300, collected = [], seen = {},
      chunks = take 1 example_chunks\<rparr>
     63839786110 [marker_a]
   = Inr \<lparr>cursor_end = 63839786110, chunk = 300,
          collected = [normalized marker_a 63839786409],
          seen = {row_id (normalized marker_a 63839786409)},
          chunks = take 2 example_chunks\<rparr>"
  by (simp add: scan_iteration_def Let_def normalize_a strftime_100010 strftime_095510
      example_chunks_def)

lemma row_id_a_b:
  "row_id (normalized marker_b 63839785920) \<noteq> row_id (normalized marker_a 63839786409)"
  by (simp add: row_id_def normalized_def marker_a_def marker_b_def)

lemma example_iteration_2:
  "scan_iteration strptime_canonical strftime_canonical 2 60 3
     \<lparr>cursor_end = 63839786110, chunk = 300,
      collected = [normalized marker_a 63839786409],
      seen = {row_id (normalized marker_a 63839786409)},
      chunks = take 2 example_chunks\<rparr>
     63839785810 [marker_a, marker_b]
   = Inr \<lparr>cursor_end = 63839785810, chunk = 300,
          collected = [normalized marker_a 63839786409, normalized marker_b 63839785920],
          seen = {row_id (normalized marker_b 63839785920),
                  row_id (normalized marker_a 63839786409)},
          chunks = example_chunks\<rparr>"
  by (simp add: scan_iteration_def Let_def normalize_ab strftime_095510 strftime_095010
      example_chunks_def row_id_a_b)

lemma example_loop:
  "scan_loop example_query strptime_canonical strftime_canonical 63839700010 2 60 3
     \<lparr>cursor_end = 63839786410, chunk = 600, collected = [], seen = {}, chunks = []\<rparr>
   = Some (Inr \<lparr>cursor_end = 63839785810, chunk = 300,
          collected = [normalized marker_a 63839786409, normalized marker_b 63839785920],
          seen = {row_id (normalized marker_b 63839785920),
                  row_id (normalized marker_a 63839786409)},
          chunks = example_chunks\<rparr>)"
proof -
  have w: "window_begin 63839700010
             \<lparr>cursor_end = 63839786410, chunk = 600, collected = [], seen = {}, chunks = []\<rparr>
           = Inr 63839785810"
    "window_begin 63839700010
             \<lparr>cursor_end = 63839786410, chunk = 300, collected = [], seen = {},
              chunks = take 1 example_chunks\<rparr>
           = Inr 63839786110"
    "window_begin 63839700010
             \<lparr>cursor_end = 63839786110, chunk = 300,
              collected = [normalized marker_a 63839786409],
              seen = {row_id (normalized marker_a 63839786409)},
              chunks = take 2 example_chunks\<rparr>
           = Inr 63839785810"
    by (simp_all add: window_begin_def add_seconds_def datetime_min_def datetime_max_def)
  have s0: "scan_loop example_query strptime_canonical strftime_canonical 63839700010 2 60 3
     \<lparr>cursor_end = 63839786410, chunk = 600, collected = [], seen = {}, chunks = []\<rparr>
    = scan_loop example_query strptime_canonical strftime_canonical 63839700010 2 60 3
     \<lparr>cursor_end = 63839786410, chunk = 300, collected = [], seen = {},
      chunks = take 1 example_chunks\<rparr>"
    by (rule scan_loop_step [OF _ w(1) _ example_iteration_0])
       (simp_all add: scan_continues_def example_query_def)
  have s1: "scan_loop example_query strptime_canonical strftime_canonical 63839700010 2 60 3
     \<lparr>cursor_end = 63839786410, chunk = 300, collected = [], seen = {},
      chunks = take 1 example_chunks\<rparr>
    = scan_loop example_query strptime_canonical strftime_canonical 63839700010 2 60 3
     \<lparr>cursor_end = 63839786110, chunk = 300,
      collected = [normalized marker_a 63839786409],
      seen = {row_id (normalized marker_a 63839786409)},
      chunks = take 2 example_chunks\<rparr>"
    by (rule scan_loop_step [OF _ w(2) _ example_iteration_1])
       (simp_all add: scan_continues_def example_query_def example_chunks_def)
  have s2: "scan_loop example_query strptime_canonical strftime_canonical 63839700010 2 60 3
     \<lparr>cursor_end = 63839786110, chunk = 300,
      collected = [normalized marker_a 63839786409],
      seen = {row_id (normalized marker_a 63839786409)},
      chunks = take 2 example_chunks\<rparr>
    = scan_loop example_query strptime_canonical strftime_canonical 63839700010 2 60 3
     \<lparr>cursor_end = 63839785810, chunk = 300,
          collected = [normalized marker_a 63839786409, normalized marker_b 63839785920],
          seen = {row_id (normalized marker_b 63839785920),
                  row_id (normalized marker_a 63839786409)},
          chunks = example_chunks\<rparr>"
    by (rule scan_loop_step [OF _ w(3) _ example_iteration_2])
       (simp_all add: scan_continues_def example_query_def example_chunks_def)
  have s3: "scan_loop example_query strptime_canonical strftime_canonical 63839700010 2 60 3
     \<lparr>cursor_end = 63839785810, chunk = 300,
          collected = [normalized marker_a 63839786409, normalized marker_b 63839785920],
          seen = {row_id (normalized marker_b 63839785920),
                  row_id (normalized marker_a 63839786409)},
          chunks = example_chunks\<rparr>
    = Some (Inr \<lparr>cursor_end = 63839785810, chunk = 300,
          collected = [normalized marker_a 63839786409, normalized marker_b 63839785920],
          seen = {row_id (normalized marker_b 63839785920),
                  row_id (normalized marker_a 63839786409)},
          chunks = example_chunks\<rparr>)"
    by (rule scan_loop_stops_at_once) (simp add: scan_continues_def)
  from s0 s1 s2 s3 show ?thesis by simp
qed

lemma example_fetch:
  "fetch_recent_alarm_markers True (Inr True) example_query strptime_canonical strftime_canonical
     ''secret'' 63839786410 2 24 10 60 3
   = Some (Inr ([normalized marker_a 63839786409, normalized marker_b 63839785920],
                \<lparr>sm_ok = True, sm_reason = ''ok'', sm_chunks = example_chunks,
                 sm_count = Some 2, sm_max_time = Some ''2024-01-01 10:00:09''\<rparr>))"
  by (simp add: fetch_recent_alarm_markers_def Let_def example_setup example_loop py_prefix_def
      normalized_def strftime_100009)

subsection \<open>The rows returned\<close>

text \<open>
  Claim C5. Whatever the camera answers to the queries of a run (\<open>query\<close> gives the answer
  to each call, rows or an exception, and the same row may come back from several windows),
  \<open>fetch_recent_alarm_markers\<close> ends, and when it returns rows and not an exception, no two
  of the rows have the same pair of \<open>FileName\<close> and \<open>BeginTime\<close>, the begin times of the rows
  parse and are in descending order, and there are at most \<open>want\<close> rows (none when \<open>want\<close> is
  negative).
\<close>

theorem fetch_recent_alarm_markers_rows:
  "\<exists>res. fetch_recent_alarm_markers has_dvrip cam_login query parse_dt strftime password end_dt
             want max_lookback_hours initial_chunk_minutes min_chunk_seconds cap_guard
           = Some res
         \<and> (\<forall>rows meta. res = Inr (rows, meta) \<longrightarrow>
               distinct (map (\<lambda>r. (FileName r, BeginTime r)) rows)
             \<and> (\<forall>i j. i < j \<and> j < length rows \<longrightarrow>
                  (\<exists>a b. parse_dt (BeginTime (rows ! i)) = Some a
                       \<and> parse_dt (BeginTime (rows ! j)) = Some b \<and> b \<le> a))
             \<and> int (length rows) \<le> max 0 want)"
proof -
  from fetch_returns obtain res where
    res: "fetch_recent_alarm_markers has_dvrip cam_login query parse_dt strftime password end_dt
             want max_lookback_hours initial_chunk_minutes min_chunk_seconds cap_guard
           = Some res"
    by blast
  have "\<forall>rows meta. res = Inr (rows, meta) \<longrightarrow>
               distinct (map (\<lambda>r. (FileName r, BeginTime r)) rows)
             \<and> (\<forall>i j. i < j \<and> j < length rows \<longrightarrow>
                  (\<exists>a b. parse_dt (BeginTime (rows ! i)) = Some a
                       \<and> parse_dt (BeginTime (rows ! j)) = Some b \<and> b \<le> a))
             \<and> int (length rows) \<le> max 0 want"
  proof (intro allI impI)
    fix rows meta assume "res = Inr (rows, meta)"
    with res have "fetch_recent_alarm_markers has_dvrip cam_login query parse_dt strftime password
             end_dt want max_lookback_hours initial_chunk_minutes min_chunk_seconds cap_guard
           = Some (Inr (rows, meta))"
      by simp
    from fetch_rows_properties [OF this]
    show "distinct (map (\<lambda>r. (FileName r, BeginTime r)) rows)
             \<and> (\<forall>i j. i < j \<and> j < length rows \<longrightarrow>
                  (\<exists>a b. parse_dt (BeginTime (rows ! i)) = Some a
                       \<and> parse_dt (BeginTime (rows ! j)) = Some b \<and> b \<le> a))
             \<and> int (length rows) \<le> max 0 want"
      by blast
  qed
  with res show ?thesis by blast
qed

text \<open>
  The run above: the marker of 10:00:09 comes back from two windows and is returned once,
  before the marker of 09:52:00, and the two rows are the \<open>want\<close> of the run.
\<close>

theorem fetch_recent_alarm_markers_rows_witness:
  "fetch_recent_alarm_markers True (Inr True) example_query strptime_canonical strftime_canonical
     ''secret'' 63839786410 2 24 10 60 3
   = Some (Inr ([normalized marker_a 63839786409, normalized marker_b 63839785920],
                \<lparr>sm_ok = True, sm_reason = ''ok'', sm_chunks = example_chunks,
                 sm_count = Some 2, sm_max_time = Some ''2024-01-01 10:00:09''\<rparr>))
   \<and> distinct (map (\<lambda>r. (FileName r, BeginTime r))
        [normalized marker_a 63839786409, normalized marker_b 63839785920])
   \<and> (\<exists>a b. strptime_canonical (BeginTime (normalized marker_a 63839786409)) = Some a
          \<and> strptime_canonical (BeginTime (normalized marker_b 63839785920)) = Some b
          \<and> b \<le> a)
   \<and> int (length [normalized marker_a 63839786409, normalized marker_b 63839785920])
       \<le> max 0 2"
proof -
  let ?rows = "[normalized marker_a 63839786409, normalized marker_b 63839785920]"
  let ?meta = "\<lparr>sm_ok = True, sm_reason = ''ok'', sm_chunks = example_chunks,
                 sm_count = Some 2, sm_max_time = Some ''2024-01-01 10:00:09''\<rparr>"
  from fetch_recent_alarm_markers_rows [of True "Inr True" example_query strptime_canonical
      strftime_canonical "''secret''" 63839786410 2 24 10 60 3]
  have p: "distinct (map (\<lambda>r. (FileName r, BeginTime r)) ?rows)
      \<and> (\<forall>i j. i < j \<and> j < length ?rows \<longrightarrow>
           (\<exists>a b. strptime_canonical (BeginTime (?rows ! i)) = Some a
                \<and> strptime_canonical (BeginTime (?rows ! j)) = Some b \<and> b \<le> a))
      \<and> int (length ?rows) \<le> max 0 2"
    unfolding example_fetch by simp
  then have "\<forall>i j. i < j \<and> j < length ?rows \<longrightarrow>
           (\<exists>a b. strptime_canonical (BeginTime (?rows ! i)) = Some a
                \<and> strptime_canonical (BeginTime (?rows ! j)) = Some b \<and> b \<le> a)"
    by (elim conjE)
  then have "(0 :: nat) < 1 \<and> 1 < length ?rows \<longrightarrow>
           (\<exists>a b. strptime_canonical (BeginTime (?rows ! 0)) = Some a
                \<and> strptime_canonical (BeginTime (?rows ! 1)) = Some b \<and> b \<le> a)"
    by (elim allE)
  then have "\<exists>a b. strptime_canonical (BeginTime (normalized marker_a 63839786409)) = Some a
          \<and> strptime_canonical (BeginTime (normalized marker_b 63839785920)) = Some b
          \<and> b \<le> a"
    by simp
  with p example_fetch show ?thesis by blast
qed


end
